theory Spec2Isabelle
  imports Complex_Main "HOL-Library.Log_Nat"
begin

section \<open>Decimal strings and numbers\<close>

text \<open>
  Amounts cross every boundary of the ledger code as strings: the amounts of a request, the
  values of the \<open>decimal(p, s)\<close> columns as the driver returns them, the results of
  \<open>toFixed\<close>. The code computes on them with \<open>parseFloat\<close> and the arithmetic of
  JavaScript numbers, which are IEEE 754 binary64 values.

  A \<open>decimal\<close> is the text of an amount: \<open>Dec c s\<close> is the decimal numeral with
  coefficient \<open>c\<close> and \<open>s\<close> fractional digits, so \<open>Dec 1005 3\<close> is \<open>1.005\<close> and
  \<open>Dec 10000 2\<close> is \<open>100.00\<close>; \<open>DNaN\<close> is the text \<open>NaN\<close>, which \<open>parseFloat\<close> reads
  as the number NaN and which a \<open>decimal\<close> column stores as its NaN. Texts of any other
  form are not represented.
\<close>

datatype decimal = DNaN | Dec int nat

text \<open>
  A \<open>number\<close> is a binary64 value: \<open>Finite m e\<close> is \<open>m * 2 ^ e\<close>, and the arithmetic
  below produces it with \<open>\<bar>m\<bar> < 2 ^ 53\<close> and \<open>- 1074 \<le> e \<le> 971\<close>, zero as
  \<open>Finite 0 0\<close>. The sign of a zero is not represented: no operation used here
  distinguishes the two zeros.
\<close>

datatype number = NaN | PosInfinity | NegInfinity | Finite int int

text \<open>The integer nearest to \<open>n / d\<close> for \<open>d > 0\<close>, the even one of two equally near.\<close>

definition roundHalfEven :: "int \<Rightarrow> int \<Rightarrow> int" where
  "roundHalfEven n d =
     (let q = n div d; r = n mod d
      in if 2 * r < d then q else if d < 2 * r then q + 1 else if even q then q else q + 1)"

text \<open>The exponent \<open>k\<close> with \<open>2 ^ k \<le> a / q < 2 ^ (k + 1)\<close>, for positive \<open>a\<close> and \<open>q\<close>.\<close>

definition ilog2 :: "int \<Rightarrow> int \<Rightarrow> int" where
  "ilog2 a q =
     (let k = bitlen a - bitlen q
      in if q * 2 ^ nat k \<le> a * 2 ^ nat (- k) then k else k - 1)"

text \<open>The binary64 value nearest to the rational \<open>p / q\<close> (\<open>q > 0\<close>), ties to even: 53
  significant bits, exponent at least \<open>- 1074\<close>, infinite from \<open>2 ^ 1024\<close> on.\<close>

definition roundToDouble :: "int \<Rightarrow> int \<Rightarrow> number" where
  "roundToDouble p q =
     (if p = 0 then Finite 0 0
      else let a = \<bar>p\<bar>;
               e = max (ilog2 a q - 52) (- 1074);
               m = roundHalfEven (a * 2 ^ nat (- e)) (q * 2 ^ nat e);
               e' = (if m = 2 ^ 53 then e + 1 else e);
               m' = (if m = 2 ^ 53 then 2 ^ 52 else m)
           in if 971 < e' then (if p < 0 then NegInfinity else PosInfinity)
              else if m' = 0 then Finite 0 0
              else Finite (sgn p * m') e')"

fun parseFloat :: "decimal \<Rightarrow> number" where
  "parseFloat DNaN = NaN"
| "parseFloat (Dec c s) = roundToDouble c (10 ^ s)"

text \<open>\<open>x + y\<close>, \<open>- x\<close>, \<open>x - y\<close>, \<open>x < y\<close>, \<open>x === y\<close> and \<open>Math.abs(x)\<close> on numbers.\<close>

fun addNumber :: "number \<Rightarrow> number \<Rightarrow> number" where
  "addNumber (Finite m1 e1) (Finite m2 e2) =
     (let e = min e1 e2
      in roundToDouble ((m1 * 2 ^ nat (e1 - e) + m2 * 2 ^ nat (e2 - e)) * 2 ^ nat e) (2 ^ nat (- e)))"
| "addNumber NaN y = NaN"
| "addNumber x NaN = NaN"
| "addNumber PosInfinity NegInfinity = NaN"
| "addNumber NegInfinity PosInfinity = NaN"
| "addNumber PosInfinity y = PosInfinity"
| "addNumber x PosInfinity = PosInfinity"
| "addNumber NegInfinity y = NegInfinity"
| "addNumber x NegInfinity = NegInfinity"

fun negNumber :: "number \<Rightarrow> number" where
  "negNumber NaN = NaN"
| "negNumber PosInfinity = NegInfinity"
| "negNumber NegInfinity = PosInfinity"
| "negNumber (Finite m e) = Finite (- m) e"

definition subNumber :: "number \<Rightarrow> number \<Rightarrow> number" where
  "subNumber x y = addNumber x (negNumber y)"

fun lessNumber :: "number \<Rightarrow> number \<Rightarrow> bool" where
  "lessNumber (Finite m1 e1) (Finite m2 e2) =
     (let e = min e1 e2 in m1 * 2 ^ nat (e1 - e) < m2 * 2 ^ nat (e2 - e))"
| "lessNumber NaN y = False"
| "lessNumber x NaN = False"
| "lessNumber NegInfinity NegInfinity = False"
| "lessNumber NegInfinity y = True"
| "lessNumber x NegInfinity = False"
| "lessNumber PosInfinity y = False"
| "lessNumber x PosInfinity = True"

fun strictEquals :: "number \<Rightarrow> number \<Rightarrow> bool" where
  "strictEquals (Finite m1 e1) (Finite m2 e2) =
     (let e = min e1 e2 in m1 * 2 ^ nat (e1 - e) = m2 * 2 ^ nat (e2 - e))"
| "strictEquals PosInfinity PosInfinity = True"
| "strictEquals NegInfinity NegInfinity = True"
| "strictEquals x y = False"

fun absNumber :: "number \<Rightarrow> number" where
  "absNumber NaN = NaN"
| "absNumber PosInfinity = PosInfinity"
| "absNumber NegInfinity = PosInfinity"
| "absNumber (Finite m e) = Finite \<bar>m\<bar> e"

text \<open>
  The text that \<open>x.toFixed(f)\<close> returns: for a finite \<open>x\<close> below \<open>10 ^ 21\<close> in magnitude
  the numeral \<open>n / 10 ^ f\<close> with \<open>n\<close> the integer nearest to the exact value of
  \<open>\<bar>x\<bar> * 10 ^ f\<close>, the larger of two equally near, under the sign of \<open>x\<close>; the text
  \<open>NaN\<close> for NaN. For an infinite \<open>x\<close> it is \<open>Infinity\<close> or \<open>-Infinity\<close>, and from
  \<open>10 ^ 21\<close> on the exponent notation of the number itself.
\<close>

datatype fixed = Fixed decimal | FixedInfinity | FixedNegInfinity | FixedExponent number

fun toFixed :: "nat \<Rightarrow> number \<Rightarrow> fixed" where
  "toFixed f NaN = Fixed DNaN"
| "toFixed f PosInfinity = FixedInfinity"
| "toFixed f NegInfinity = FixedNegInfinity"
| "toFixed f (Finite m e) =
     (if 10 ^ 21 * 2 ^ nat (- e) \<le> \<bar>m\<bar> * 2 ^ nat e then FixedExponent (Finite m e)
      else Fixed (Dec (sgn m * ((2 * \<bar>m\<bar> * 10 ^ f * 2 ^ nat e + 2 ^ nat (- e)) div (2 * 2 ^ nat (- e)))) f))"

section \<open>Data model (shared schema)\<close>

text \<open>
  The three tables the ledger code reads and writes are modelled as lists of rows. The
  columns \<open>createdAt\<close> and \<open>updatedAt\<close> and the generated \<open>id\<close> of a line row are left
  out: no statement below reads them. A row id that the database generates
  (\<open>gen_random_uuid()\<close>) is an argument of the operation that inserts the row. The tables
  of companies and users are not represented.
\<close>

datatype account_type = ASSET | LIABILITY | EQUITY | REVENUE | EXPENSE

record account =
  acc_id :: string
  acc_companyId :: string
  acc_code :: string
  acc_name :: string
  acc_type :: account_type
  acc_parentId :: "string option"
  acc_description :: "string option"
  acc_isActive :: bool
  acc_balance :: decimal
  acc_currency :: string

record journal_entry =
  je_id :: string
  je_companyId :: string
  je_entryNumber :: string
  je_date :: string
  je_description :: string
  je_reference :: "string option"
  je_totalAmount :: decimal
  je_createdBy :: string

record journal_entry_line =
  jl_journalEntryId :: string
  jl_accountId :: string
  jl_description :: "string option"
  jl_debitAmount :: decimal
  jl_creditAmount :: decimal
  jl_currency :: string
  jl_exchangeRate :: decimal

text \<open>\<open>InsertJournalEntry\<close>: a journal entry row without its generated id. Its
  \<open>totalAmount\<close> is the text the handlers obtain from \<open>toFixed\<close>.\<close>

record insert_journal_entry =
  ie_companyId :: string
  ie_entryNumber :: string
  ie_date :: string
  ie_description :: string
  ie_reference :: "string option"
  ie_totalAmount :: fixed
  ie_createdBy :: string

text \<open>\<open>Partial<InsertJournalEntry>\<close>: every field may be absent.\<close>

record partial_journal_entry =
  pe_companyId :: "string option"
  pe_entryNumber :: "string option"
  pe_date :: "string option"
  pe_description :: "string option"
  pe_reference :: "string option"
  pe_totalAmount :: "fixed option"
  pe_createdBy :: "string option"

text \<open>\<open>Omit<InsertJournalEntryLine, 'journalEntryId'>\<close>, also the shape of a request line
  after the request schema has filled in its defaults.\<close>

record insert_line =
  ln_accountId :: string
  ln_description :: "string option"
  ln_debitAmount :: decimal
  ln_creditAmount :: decimal
  ln_currency :: string
  ln_exchangeRate :: decimal



record db =
  accounts :: "account list"
  journalEntries :: "journal_entry list"
  journalEntryLines :: "journal_entry_line list"

section \<open>Decimal columns\<close>

datatype error =
    TooFewLines
  | NegativeAmount
  | AmbiguousLine
  | EmptyLine
  | Unbalanced fixed fixed
  | AccountNotInCompany string
  | NotFound
  | NumericOverflow
  | ForeignKeyViolation string

text \<open>The integer nearest to \<open>n / d\<close> for \<open>d > 0\<close>, of two equally near ones the larger in
  magnitude: the rounding of the database's \<open>numeric\<close> type.\<close>

definition roundHalfAway :: "int \<Rightarrow> int \<Rightarrow> int" where
  "roundHalfAway n d = sgn n * ((2 * \<bar>n\<bar> + d) div (2 * d))"

text \<open>The value a \<open>decimal(p, scale)\<close> column holds after a text is written to it: the
  numeral rounded to \<open>scale\<close> fractional digits.\<close>

definition decimalColumn :: "nat \<Rightarrow> decimal \<Rightarrow> decimal" where
  "decimalColumn scale x =
     (case x of DNaN \<Rightarrow> DNaN
      | Dec c s \<Rightarrow> Dec (roundHalfAway (c * 10 ^ scale) (10 ^ s)) scale)"

text \<open>A write to a \<open>decimal(precision, scale)\<close> column as the ledger's transactions meet
  it: the database refuses a rounded value of \<open>10 ^ (precision - scale)\<close> or more in
  magnitude, and with it the texts of \<open>toFixed\<close> that are no numeral of that range.\<close>

definition storeDecimal :: "nat \<Rightarrow> nat \<Rightarrow> decimal \<Rightarrow> error + decimal" where
  "storeDecimal precision scale x =
     (case decimalColumn scale x of
        DNaN \<Rightarrow> Inr DNaN
      | Dec c s \<Rightarrow> if \<bar>c\<bar> < 10 ^ precision then Inr (Dec c s) else Inl NumericOverflow)"

definition storeFixed :: "nat \<Rightarrow> nat \<Rightarrow> fixed \<Rightarrow> error + decimal" where
  "storeFixed precision scale t =
     (case t of Fixed x \<Rightarrow> storeDecimal precision scale x | _ \<Rightarrow> Inl NumericOverflow)"

section \<open>Storage layer (server/storage.ts)\<close>

text \<open>
  A transaction of the storage layer returns \<open>Inr\<close> of its result and the tables it
  leaves, or \<open>Inl\<close> of the error that aborted it; an aborted transaction leaves the tables
  as they were, so it returns no tables. The database's rejections that are represented
  are the numeric overflow of a \<open>decimal(15,2)\<close> or \<open>decimal(10,6)\<close> column and the
  foreign key from \<open>journal_entry_lines.account_id\<close> to \<open>accounts.id\<close>.
\<close>

definition getAccount :: "account list \<Rightarrow> string \<Rightarrow> account option" where
  "getAccount accs aid = find (\<lambda>a. acc_id a = aid) accs"

text \<open>The rows of a company. The query orders them by \<open>code\<close>; its callers here only
  form the set of their ids, and the order is not represented.\<close>

definition getAccountsByCompany :: "account list \<Rightarrow> string \<Rightarrow> account list" where
  "getAccountsByCompany accs companyId = filter (\<lambda>a. acc_companyId a = companyId) accs"

definition getJournalEntry :: "journal_entry list \<Rightarrow> string \<Rightarrow> journal_entry option" where
  "getJournalEntry es eid = find (\<lambda>e. je_id e = eid) es"

text \<open>\<open>tx.update(accounts).set({ balance: b }).where(eq(accounts.id, aid))\<close>\<close>

definition setBalance :: "account list \<Rightarrow> string \<Rightarrow> fixed \<Rightarrow> error + account list" where
  "setBalance accs aid b =
     (case storeFixed 15 2 b of
        Inl e \<Rightarrow> Inl e
      | Inr v \<Rightarrow> Inr (map (\<lambda>a. if acc_id a = aid then a\<lparr>acc_balance := v\<rparr> else a) accs))"

text \<open>The body of the posting loops of \<open>createJournalEntry\<close> and \<open>updateJournalEntry\<close>:
  look the line's account up, parse its balance and the line's amounts, compute the new
  balance by the account's type, write it back with \<open>toFixed(2)\<close>; a line whose account
  is not found is skipped.\<close>

definition forwardDelta :: "account list \<Rightarrow> string \<Rightarrow> decimal \<Rightarrow> decimal \<Rightarrow> error + account list" where
  "forwardDelta accs aid debitAmount creditAmount =
     (case getAccount accs aid of
        None \<Rightarrow> Inr accs
      | Some account \<Rightarrow>
          (let currentBalance = parseFloat (acc_balance account);
               debit = parseFloat debitAmount;
               credit = parseFloat creditAmount;
               newBalance = (if acc_type account \<in> {ASSET, EXPENSE}
                             then addNumber currentBalance (subNumber debit credit)
                             else addNumber currentBalance (subNumber credit debit))
           in setBalance accs (acc_id account) (toFixed 2 newBalance)))"

text \<open>The body of the reversal loop of \<open>updateJournalEntry\<close>.\<close>

definition reverseDelta :: "account list \<Rightarrow> string \<Rightarrow> decimal \<Rightarrow> decimal \<Rightarrow> error + account list" where
  "reverseDelta accs aid debitAmount creditAmount =
     (case getAccount accs aid of
        None \<Rightarrow> Inr accs
      | Some account \<Rightarrow>
          (let currentBalance = parseFloat (acc_balance account);
               debit = parseFloat debitAmount;
               credit = parseFloat creditAmount;
               newBalance = (if acc_type account \<in> {ASSET, EXPENSE}
                             then subNumber currentBalance (subNumber debit credit)
                             else subNumber currentBalance (subNumber credit debit))
           in setBalance accs (acc_id account) (toFixed 2 newBalance)))"

fun applyLines :: "account list \<Rightarrow> insert_line list \<Rightarrow> error + account list" where
  "applyLines accs [] = Inr accs"
| "applyLines accs (line # rest) =
     (case forwardDelta accs (ln_accountId line) (ln_debitAmount line) (ln_creditAmount line) of
        Inl e \<Rightarrow> Inl e
      | Inr accs' \<Rightarrow> applyLines accs' rest)"

fun reverseLines :: "account list \<Rightarrow> journal_entry_line list \<Rightarrow> error + account list" where
  "reverseLines accs [] = Inr accs"
| "reverseLines accs (line # rest) =
     (case reverseDelta accs (jl_accountId line) (jl_debitAmount line) (jl_creditAmount line) of
        Inl e \<Rightarrow> Inl e
      | Inr accs' \<Rightarrow> reverseLines accs' rest)"

text \<open>The row that \<open>tx.insert(journalEntryLines)\<close> stores for a line under an entry id,
  each amount converted by its column.\<close>

definition withEntryId :: "string \<Rightarrow> insert_line \<Rightarrow> error + journal_entry_line" where
  "withEntryId eid line =
     (case storeDecimal 15 2 (ln_debitAmount line) of
        Inl e \<Rightarrow> Inl e
      | Inr debit \<Rightarrow>
          (case storeDecimal 15 2 (ln_creditAmount line) of
             Inl e \<Rightarrow> Inl e
           | Inr credit \<Rightarrow>
               (case storeDecimal 10 6 (ln_exchangeRate line) of
                  Inl e \<Rightarrow> Inl e
                | Inr rate \<Rightarrow>
                    Inr \<lparr>jl_journalEntryId = eid,
                         jl_accountId = ln_accountId line,
                         jl_description = ln_description line,
                         jl_debitAmount = debit,
                         jl_creditAmount = credit,
                         jl_currency = ln_currency line,
                         jl_exchangeRate = rate\<rparr>)))"

fun linesWithEntryId :: "string \<Rightarrow> insert_line list \<Rightarrow> error + journal_entry_line list" where
  "linesWithEntryId eid [] = Inr []"
| "linesWithEntryId eid (line # rest) =
     (case withEntryId eid line of
        Inl e \<Rightarrow> Inl e
      | Inr row \<Rightarrow>
          (case linesWithEntryId eid rest of
             Inl e \<Rightarrow> Inl e
           | Inr rows \<Rightarrow> Inr (row # rows)))"

text \<open>\<open>tx.insert(journalEntryLines).values(linesWithEntryId)\<close>: the rows are converted,
  then the foreign key of \<open>account_id\<close> is checked for each of them against the accounts
  table; the statement fails on the first row that has no account.\<close>

definition insertLines ::
  "account list \<Rightarrow> string \<Rightarrow> insert_line list \<Rightarrow> error + journal_entry_line list" where
  "insertLines accs eid lines =
     (case linesWithEntryId eid lines of
        Inl e \<Rightarrow> Inl e
      | Inr rows \<Rightarrow>
          (case find (\<lambda>row. getAccount accs (jl_accountId row) = None) rows of
             Some row \<Rightarrow> Inl (ForeignKeyViolation (jl_accountId row))
           | None \<Rightarrow> Inr rows))"

text \<open>The row that \<open>tx.insert(journalEntries).values(entry)\<close> stores.\<close>

definition insertedEntry :: "string \<Rightarrow> insert_journal_entry \<Rightarrow> error + journal_entry" where
  "insertedEntry newId entry =
     (case storeFixed 15 2 (ie_totalAmount entry) of
        Inl e \<Rightarrow> Inl e
      | Inr totalAmount \<Rightarrow>
          Inr \<lparr>je_id = newId,
               je_companyId = ie_companyId entry,
               je_entryNumber = ie_entryNumber entry,
               je_date = ie_date entry,
               je_description = ie_description entry,
               je_reference = ie_reference entry,
               je_totalAmount = totalAmount,
               je_createdBy = ie_createdBy entry\<rparr>)"

definition createJournalEntry ::
  "db \<Rightarrow> string \<Rightarrow> insert_journal_entry \<Rightarrow> insert_line list \<Rightarrow> error + journal_entry \<times> db" where
  "createJournalEntry d newId entry lines =
     (case insertedEntry newId entry of
        Inl e \<Rightarrow> Inl e
      | Inr newEntry \<Rightarrow>
          (case insertLines (accounts d) (je_id newEntry) lines of
             Inl e \<Rightarrow> Inl e
           | Inr rows \<Rightarrow>
               (case applyLines (accounts d) lines of
                  Inl e \<Rightarrow> Inl e
                | Inr accs \<Rightarrow>
                    Inr (newEntry,
                         d\<lparr>journalEntries := journalEntries d @ [newEntry],
                           journalEntryLines := journalEntryLines d @ rows,
                           accounts := accs\<rparr>))))"

text \<open>\<open>select().from(journalEntryLines).where(eq(journalEntryLines.journalEntryId, eid))\<close>\<close>

definition selectLines :: "journal_entry_line list \<Rightarrow> string \<Rightarrow> journal_entry_line list" where
  "selectLines rows eid = filter (\<lambda>l. jl_journalEntryId l = eid) rows"

text \<open>\<open>.set({ ...entryUpdates })\<close>: the fields present in the patch overwrite the row's.\<close>

definition setEntry :: "partial_journal_entry \<Rightarrow> journal_entry \<Rightarrow> error + journal_entry" where
  "setEntry u e =
     (case (case pe_totalAmount u of None \<Rightarrow> Inr (je_totalAmount e)
            | Some v \<Rightarrow> storeFixed 15 2 v) of
        Inl err \<Rightarrow> Inl err
      | Inr totalAmount \<Rightarrow>
          Inr \<lparr>je_id = je_id e,
               je_companyId = (case pe_companyId u of None \<Rightarrow> je_companyId e | Some v \<Rightarrow> v),
               je_entryNumber = (case pe_entryNumber u of None \<Rightarrow> je_entryNumber e | Some v \<Rightarrow> v),
               je_date = (case pe_date u of None \<Rightarrow> je_date e | Some v \<Rightarrow> v),
               je_description = (case pe_description u of None \<Rightarrow> je_description e | Some v \<Rightarrow> v),
               je_reference = (case pe_reference u of None \<Rightarrow> je_reference e | Some v \<Rightarrow> Some v),
               je_totalAmount = totalAmount,
               je_createdBy = (case pe_createdBy u of None \<Rightarrow> je_createdBy e | Some v \<Rightarrow> v)\<rparr>)"

text \<open>The steps of \<open>updateJournalEntry\<close> in the order of the source: the lookup, the
  reversal loop over the stored lines, the update of the entry row (\<open>id\<close> is the primary
  key, so it is one row), the deletion of the old line rows, the insertion of the new ones,
  the posting loop over the new lines.\<close>

definition updateJournalEntry ::
  "db \<Rightarrow> string \<Rightarrow> partial_journal_entry \<Rightarrow> insert_line list \<Rightarrow> error + journal_entry \<times> db" where
  "updateJournalEntry d eid entryUpdates newLines =
     (case getJournalEntry (journalEntries d) eid of
        None \<Rightarrow> Inl NotFound
      | Some existingEntry \<Rightarrow>
          (let existingLines = selectLines (journalEntryLines d) eid
           in case reverseLines (accounts d) existingLines of
                Inl e \<Rightarrow> Inl e
              | Inr reversed \<Rightarrow>
                  (case setEntry entryUpdates existingEntry of
                     Inl e \<Rightarrow> Inl e
                   | Inr updatedEntry \<Rightarrow>
                       (let entries = map (\<lambda>e. if je_id e = eid then updatedEntry else e)
                                        (journalEntries d);
                            kept = filter (\<lambda>l. jl_journalEntryId l \<noteq> eid) (journalEntryLines d)
                        in case insertLines reversed eid newLines of
                             Inl e \<Rightarrow> Inl e
                           | Inr rows \<Rightarrow>
                               (case applyLines reversed newLines of
                                  Inl e \<Rightarrow> Inl e
                                | Inr accs \<Rightarrow>
                                    Inr (updatedEntry,
                                         d\<lparr>journalEntries := entries,
                                           journalEntryLines := kept @ rows,
                                           accounts := accs\<rparr>))))))"





record account_balances =
  assets :: fixed
  liabilities :: fixed
  equity :: fixed
  revenue :: fixed
  expenses :: fixed

definition sumBalances :: "account_type \<Rightarrow> account list \<Rightarrow> number" where
  "sumBalances t accountsData =
     foldl (\<lambda>sum acc. addNumber sum (parseFloat (acc_balance acc))) (Finite 0 0)
       (filter (\<lambda>a. acc_type a = t) accountsData)"

definition getAccountBalances :: "db \<Rightarrow> string \<Rightarrow> account_balances" where
  "getAccountBalances d companyId =
     (let accountsData = filter (\<lambda>a. acc_companyId a = companyId) (accounts d)
      in \<lparr>assets = toFixed 2 (sumBalances ASSET accountsData),
          liabilities = toFixed 2 (sumBalances LIABILITY accountsData),
          equity = toFixed 2 (sumBalances EQUITY accountsData),
          revenue = toFixed 2 (sumBalances REVENUE accountsData),
          expenses = toFixed 2 (sumBalances EXPENSE accountsData)\<rparr>)"

section \<open>Request handlers (server/routes.ts)\<close>

text \<open>The body of \<open>POST /api/journal-entries\<close> after the request schema. The
  \<open>totalAmount\<close> of the request is a string that the handler never parses.\<close>

record entry_request =
  er_companyId :: string
  er_entryNumber :: string
  er_date :: string
  er_description :: string
  er_reference :: "string option"
  er_totalAmount :: string

record entry_update_request =
  eu_entryNumber :: "string option"
  eu_date :: "string option"
  eu_description :: "string option"
  eu_reference :: "string option"
  eu_totalAmount :: "string option"

text \<open>The loop over the lines that both journal-entry handlers run first: one line at a
  time, three tests on the parsed amounts of each, returning at the first test that
  fails.\<close>

fun checkLines :: "insert_line list \<Rightarrow> error option" where
  "checkLines [] = None"
| "checkLines (line # rest) =
     (let debitAmount = parseFloat (ln_debitAmount line);
          creditAmount = parseFloat (ln_creditAmount line)
      in if lessNumber debitAmount (Finite 0 0) \<or> lessNumber creditAmount (Finite 0 0)
         then Some NegativeAmount
         else if lessNumber (Finite 0 0) debitAmount \<and> lessNumber (Finite 0 0) creditAmount
         then Some AmbiguousLine
         else if strictEquals debitAmount (Finite 0 0) \<and> strictEquals creditAmount (Finite 0 0)
         then Some EmptyLine
         else checkLines rest)"

definition totalDebits :: "insert_line list \<Rightarrow> number" where
  "totalDebits lines =
     foldl (\<lambda>sum line. addNumber sum (parseFloat (ln_debitAmount line))) (Finite 0 0) lines"

definition totalCredits :: "insert_line list \<Rightarrow> number" where
  "totalCredits lines =
     foldl (\<lambda>sum line. addNumber sum (parseFloat (ln_creditAmount line))) (Finite 0 0) lines"

text \<open>The loop over \<open>accountIds\<close> against the set of the company's account ids.\<close>

definition checkAccounts :: "account list \<Rightarrow> string \<Rightarrow> insert_line list \<Rightarrow> error option" where
  "checkAccounts accs companyId lines =
     (let accountIds = map ln_accountId lines;
          validAccountIds = set (map acc_id (getAccountsByCompany accs companyId))
      in map_option AccountNotInCompany (find (\<lambda>accountId. accountId \<notin> validAccountIds) accountIds))"

text \<open>The checks of a handler after its schema and before its call of the storage layer;
  the text is the same in both handlers. The literal \<open>0.01\<close> is the number nearest to
  1/100.\<close>

definition validateLines :: "account list \<Rightarrow> string \<Rightarrow> insert_line list \<Rightarrow> error option" where
  "validateLines accs companyId lines =
     (case checkLines lines of
        Some e \<Rightarrow> Some e
      | None \<Rightarrow>
          if lessNumber (roundToDouble 1 100)
               (absNumber (subNumber (totalDebits lines) (totalCredits lines)))
          then Some (Unbalanced (toFixed 2 (totalDebits lines)) (toFixed 2 (totalCredits lines)))
          else checkAccounts accs companyId lines)"

definition post_journal_entries ::
  "db \<Rightarrow> string \<Rightarrow> entry_request \<Rightarrow> insert_line list \<Rightarrow> (error + journal_entry) \<times> db" where
  "post_journal_entries d newId entry lines =
     (if length lines < 2 then (Inl TooFewLines, d)
      else case validateLines (accounts d) (er_companyId entry) lines of
        Some e \<Rightarrow> (Inl e, d)
      | None \<Rightarrow>
          (let entryWithCreatedBy =
                 \<lparr>ie_companyId = er_companyId entry,
                  ie_entryNumber = er_entryNumber entry,
                  ie_date = er_date entry,
                  ie_description = er_description entry,
                  ie_reference = er_reference entry,
                  ie_totalAmount = toFixed 2 (totalDebits lines),
                  ie_createdBy = ''system_user_id_1''\<rparr>
           in case createJournalEntry d newId entryWithCreatedBy lines of
                Inl e \<Rightarrow> (Inl e, d)
              | Inr (journalEntry, d') \<Rightarrow> (Inr journalEntry, d')))"

definition put_journal_entries ::
  "db \<Rightarrow> string \<Rightarrow> entry_update_request \<Rightarrow> insert_line list \<Rightarrow> (error + journal_entry) \<times> db" where
  "put_journal_entries d eid entry lines =
     (if length lines < 2 then (Inl TooFewLines, d)
      else case getJournalEntry (journalEntries d) eid of
        None \<Rightarrow> (Inl NotFound, d)
      | Some existingEntry \<Rightarrow>
          (case validateLines (accounts d) (je_companyId existingEntry) lines of
             Some e \<Rightarrow> (Inl e, d)
           | None \<Rightarrow>
               (let updatedEntryData =
                      \<lparr>pe_companyId = None,
                       pe_entryNumber = eu_entryNumber entry,
                       pe_date = eu_date entry,
                       pe_description = eu_description entry,
                       pe_reference = eu_reference entry,
                       pe_totalAmount = Some (toFixed 2 (totalDebits lines)),
                       pe_createdBy = None\<rparr>
                in case updateJournalEntry d eid updatedEntryData lines of
                     Inl e \<Rightarrow> (Inl e, d)
                   | Inr (updatedEntry, d') \<Rightarrow> (Inr updatedEntry, d'))))"



section \<open>Client helper (client/src/lib/accounting-utils.ts)\<close>

definition calculateAccountBalance :: "number \<Rightarrow> string \<Rightarrow> number \<Rightarrow> number \<Rightarrow> number" where
  "calculateAccountBalance currentBalance accountType debitAmount creditAmount =
     (if accountType \<in> set [''ASSET'', ''EXPENSE'']
      then subNumber (addNumber currentBalance debitAmount) creditAmount
      else subNumber (addNumber currentBalance creditAmount) debitAmount)"

section \<open>The validator's rules, as the handlers test them\<close>

text \<open>Rules 2, 3 and 4 of the specification's validator, each for one line, and its rule 5
  for the lines of a candidate, read on the parsed amounts as the handlers' tests read
  them; the statements below compare the handlers with them.\<close>

definition negativeAmount :: "insert_line \<Rightarrow> bool" where
  "negativeAmount l \<longleftrightarrow>
     lessNumber (parseFloat (ln_debitAmount l)) (Finite 0 0)
     \<or> lessNumber (parseFloat (ln_creditAmount l)) (Finite 0 0)"

definition ambiguousLine :: "insert_line \<Rightarrow> bool" where
  "ambiguousLine l \<longleftrightarrow>
     lessNumber (Finite 0 0) (parseFloat (ln_debitAmount l))
     \<and> lessNumber (Finite 0 0) (parseFloat (ln_creditAmount l))"

definition emptyLine :: "insert_line \<Rightarrow> bool" where
  "emptyLine l \<longleftrightarrow>
     strictEquals (parseFloat (ln_debitAmount l)) (Finite 0 0)
     \<and> strictEquals (parseFloat (ln_creditAmount l)) (Finite 0 0)"

definition unbalanced :: "insert_line list \<Rightarrow> bool" where
  "unbalanced lines \<longleftrightarrow>
     lessNumber (roundToDouble 1 100)
       (absNumber (subNumber (totalDebits lines) (totalCredits lines)))"

definition accountOfCompany :: "account list \<Rightarrow> string \<Rightarrow> insert_line \<Rightarrow> bool" where
  "accountOfCompany accs companyId l \<longleftrightarrow>
     ln_accountId l \<in> acc_id ` {a \<in> set accs. acc_companyId a = companyId}"

section \<open>Notions used to state the ledger properties\<close>

text \<open>The rational that a numeral denotes and the real that a finite number denotes.\<close>

definition decimalValue :: "decimal \<Rightarrow> real" where
  "decimalValue x = (case x of DNaN \<Rightarrow> 0 | Dec c s \<Rightarrow> of_int c / 10 ^ s)"

definition valof :: "number \<Rightarrow> real" where
  "valof x = (case x of Finite m e \<Rightarrow> of_int m * 2 powi e | _ \<Rightarrow> 0)"

definition isDouble :: "number \<Rightarrow> bool" where
  "isDouble x = (case x of Finite m e \<Rightarrow> \<bar>m\<bar> < 2 ^ 53 \<and> - 1074 \<le> e \<and> e \<le> 971 | _ \<Rightarrow> False)"

text \<open>The number of cents of a numeral that denotes a whole number of cents: an amount
  with at most two decimals, whatever the number of digits it is written with.\<close>

definition centsOf :: "decimal \<Rightarrow> int option" where
  "centsOf x =
     (case x of DNaN \<Rightarrow> None
      | Dec c s \<Rightarrow> if (c * 100) mod 10 ^ s = 0 then Some (c * 100 div 10 ^ s) else None)"

definition cents :: "decimal \<Rightarrow> int" where
  "cents x = (case centsOf x of None \<Rightarrow> 0 | Some n \<Rightarrow> n)"

text \<open>A number that differs from \<open>X\<close> cents, an amount in the range of a
  \<open>decimal(15,2)\<close> column, by no more than parsing its text does.\<close>

definition near :: "number \<Rightarrow> int \<Rightarrow> bool" where
  "near x X \<longleftrightarrow>
     isDouble x \<and> \<bar>X\<bar> < 10 ^ 15 \<and> \<bar>valof x - of_int X / 100\<bar> \<le> 111023 / 10 ^ 8"

text \<open>A value as a \<open>decimal(15,2)\<close> column holds it.\<close>

definition money :: "decimal \<Rightarrow> bool" where
  "money x = (case x of DNaN \<Rightarrow> False | Dec c s \<Rightarrow> s = 2 \<and> \<bar>c\<bar> < 10 ^ 15)"

text \<open>The text of a value of the \<open>account_type\<close> enum.\<close>

definition typeName :: "account_type \<Rightarrow> string" where
  "typeName t =
     (case t of ASSET \<Rightarrow> ''ASSET'' | LIABILITY \<Rightarrow> ''LIABILITY'' | EQUITY \<Rightarrow> ''EQUITY''
      | REVENUE \<Rightarrow> ''REVENUE'' | EXPENSE \<Rightarrow> ''EXPENSE'')"

text \<open>The side on which an account's balance grows: +1 for a debit-normal type, -1 for a
  credit-normal one.\<close>

definition direction :: "account_type \<Rightarrow> int" where
  "direction t = (if t \<in> {ASSET, EXPENSE} then 1 else - 1)"

text \<open>A line whose amounts have at most two decimals, lie in the range of the money
  columns, and of which one is zero.\<close>

definition centLine :: "decimal \<Rightarrow> decimal \<Rightarrow> bool" where
  "centLine debit credit \<longleftrightarrow>
     centsOf debit \<noteq> None \<and> centsOf credit \<noteq> None
     \<and> \<bar>cents debit\<bar> < 10 ^ 15 \<and> \<bar>cents credit\<bar> < 10 ^ 15
     \<and> (cents debit = 0 \<or> cents credit = 0)"

text \<open>The net debit (debits minus credits), in cents, that a list of lines carries for one
  account id, for submitted lines and for stored line rows.\<close>

definition netDebit :: "insert_line list \<Rightarrow> string \<Rightarrow> int" where
  "netDebit lines aid =
     sum_list (map (\<lambda>l. cents (ln_debitAmount l) - cents (ln_creditAmount l))
                   (filter (\<lambda>l. ln_accountId l = aid) lines))"

definition netDebitStored :: "journal_entry_line list \<Rightarrow> string \<Rightarrow> int" where
  "netDebitStored rows aid =
     sum_list (map (\<lambda>l. cents (jl_debitAmount l) - cents (jl_creditAmount l))
                   (filter (\<lambda>l. jl_accountId l = aid) rows))"

text \<open>What the schema guarantees of the accounts table: \<open>id\<close> is its primary key and
  \<open>balance\<close> is a \<open>decimal(15,2)\<close>; and no balance is NaN.\<close>

definition accountsTable :: "account list \<Rightarrow> bool" where
  "accountsTable accs \<longleftrightarrow>
     distinct (map acc_id accs) \<and> list_all (\<lambda>a. money (acc_balance a)) accs"

text \<open>Lines whose amounts have at most two decimals.\<close>

definition centLines :: "insert_line list \<Rightarrow> bool" where
  "centLines lines \<longleftrightarrow>
     list_all (\<lambda>l. centsOf (ln_debitAmount l) \<noteq> None \<and> centsOf (ln_creditAmount l) \<noteq> None) lines"

text \<open>The accounting equation of a company on its stored balances, in cents:
  assets = liabilities + equity + revenue - expenses.\<close>

definition sumCents :: "account_type \<Rightarrow> account list \<Rightarrow> int" where
  "sumCents t accountsData =
     sum_list (map (\<lambda>a. cents (acc_balance a)) (filter (\<lambda>a. acc_type a = t) accountsData))"

definition accountingEquation :: "db \<Rightarrow> string \<Rightarrow> bool" where
  "accountingEquation d companyId \<longleftrightarrow>
     (let accountsData = filter (\<lambda>a. acc_companyId a = companyId) (accounts d)
      in sumCents ASSET accountsData =
           sumCents LIABILITY accountsData + sumCents EQUITY accountsData
           + sumCents REVENUE accountsData - sumCents EXPENSE accountsData)"

text \<open>The amount by which the equation's left side exceeds its right side: the sum over
  the company's accounts of the balance, counted positive for debit-normal types and
  negative for credit-normal ones.\<close>

definition signedBalance :: "account \<Rightarrow> int" where
  "signedBalance a = direction (acc_type a) * cents (acc_balance a)"

definition imbalance :: "account list \<Rightarrow> string \<Rightarrow> int" where
  "imbalance accs companyId =
     sum_list (map signedBalance (filter (\<lambda>a. acc_companyId a = companyId) accs))"

definition companyAccountIds :: "account list \<Rightarrow> string \<Rightarrow> string set" where
  "companyAccountIds accs companyId = acc_id ` {a \<in> set accs. acc_companyId a = companyId}"

text \<open>Lines with amounts of at most two decimals whose debit amounts and credit amounts
  have the same sum, not merely sums that pass the handlers' test.\<close>

definition exactLines :: "insert_line list \<Rightarrow> bool" where
  "exactLines lines \<longleftrightarrow>
     centLines lines
     \<and> sum_list (map (\<lambda>l. cents (ln_debitAmount l)) lines)
         = sum_list (map (\<lambda>l. cents (ln_creditAmount l)) lines)"

text \<open>A stored entry whose line rows each carry one amount, balance exactly and name
  accounts of its company.\<close>

definition entryExact :: "db \<Rightarrow> journal_entry \<Rightarrow> bool" where
  "entryExact d e \<longleftrightarrow>
     (let rows = selectLines (journalEntryLines d) (je_id e)
      in list_all (\<lambda>l. money (jl_debitAmount l) \<and> money (jl_creditAmount l)
                        \<and> (cents (jl_debitAmount l) = 0 \<or> cents (jl_creditAmount l) = 0)) rows
         \<and> sum_list (map (\<lambda>l. cents (jl_debitAmount l)) rows)
             = sum_list (map (\<lambda>l. cents (jl_creditAmount l)) rows)
         \<and> list_all (\<lambda>l. jl_accountId l \<in> companyAccountIds (accounts d) (je_companyId e)) rows)"

text \<open>A ledger of such entries: ids are keys of the accounts and of the entries, and
  every line row belongs to an entry.\<close>

definition ledgerInvariant :: "db \<Rightarrow> bool" where
  "ledgerInvariant d \<longleftrightarrow>
     accountsTable (accounts d)
     \<and> distinct (map je_id (journalEntries d))
     \<and> list_all (entryExact d) (journalEntries d)
     \<and> list_all (\<lambda>l. jl_journalEntryId l \<in> je_id ` set (journalEntries d)) (journalEntryLines d)"

text \<open>The states reached from a state by accepted creates, each under an id that no
  entry has yet, and accepted updates, all with exactly balanced lines.\<close>

inductive exactRun :: "db \<Rightarrow> db \<Rightarrow> bool" for d :: db where
  start: "exactRun d d"
| create: "exactRun d d1 \<Longrightarrow> newId \<notin> je_id ` set (journalEntries d1) \<Longrightarrow> exactLines lines \<Longrightarrow>
           post_journal_entries d1 newId entry lines = (Inr je, d2) \<Longrightarrow> exactRun d d2"
| update: "exactRun d d1 \<Longrightarrow> exactLines lines \<Longrightarrow>
           put_journal_entries d1 eid upd lines = (Inr je, d2) \<Longrightarrow> exactRun d d2"


section \<open>Example data\<close>

text \<open>A company \<open>c1\<close> with a cash account and a loan account, each at 100.00, a revenue
  account at 0.00, and an account of another company.\<close>

definition cash :: account where
  "cash = \<lparr>acc_id = ''a1'', acc_companyId = ''c1'', acc_code = ''1000'', acc_name = ''Cash'',
      acc_type = ASSET, acc_parentId = None, acc_description = None, acc_isActive = True,
      acc_balance = Dec 10000 2, acc_currency = ''USD''\<rparr>"

definition loan :: account where
  "loan = \<lparr>acc_id = ''a2'', acc_companyId = ''c1'', acc_code = ''2000'', acc_name = ''Loan'',
      acc_type = LIABILITY, acc_parentId = None, acc_description = None, acc_isActive = True,
      acc_balance = Dec 10000 2, acc_currency = ''USD''\<rparr>"

definition sales :: account where
  "sales = \<lparr>acc_id = ''a3'', acc_companyId = ''c1'', acc_code = ''4000'', acc_name = ''Sales'',
      acc_type = REVENUE, acc_parentId = None, acc_description = None, acc_isActive = True,
      acc_balance = Dec 0 2, acc_currency = ''USD''\<rparr>"

definition foreignCash :: account where
  "foreignCash = \<lparr>acc_id = ''b1'', acc_companyId = ''c2'', acc_code = ''1000'', acc_name = ''Cash'',
      acc_type = ASSET, acc_parentId = None, acc_description = None, acc_isActive = True,
      acc_balance = Dec 0 2, acc_currency = ''USD''\<rparr>"

definition db0 :: db where
  "db0 = \<lparr>accounts = [cash, loan, sales, foreignCash], journalEntries = [], journalEntryLines = []\<rparr>"

text \<open>A line with one amount; the other amount and the exchange rate are the defaults
  of the request schema, \<open>0\<close> and \<open>1\<close>.\<close>

definition debitLine :: "string \<Rightarrow> decimal \<Rightarrow> insert_line" where
  "debitLine aid x = \<lparr>ln_accountId = aid, ln_description = None, ln_debitAmount = x,
      ln_creditAmount = Dec 0 0, ln_currency = ''USD'', ln_exchangeRate = Dec 1 0\<rparr>"

definition creditLine :: "string \<Rightarrow> decimal \<Rightarrow> insert_line" where
  "creditLine aid x = \<lparr>ln_accountId = aid, ln_description = None, ln_debitAmount = Dec 0 0,
      ln_creditAmount = x, ln_currency = ''USD'', ln_exchangeRate = Dec 1 0\<rparr>"

definition bothLine :: "string \<Rightarrow> decimal \<Rightarrow> decimal \<Rightarrow> insert_line" where
  "bothLine aid x y = \<lparr>ln_accountId = aid, ln_description = None, ln_debitAmount = x,
      ln_creditAmount = y, ln_currency = ''USD'', ln_exchangeRate = Dec 1 0\<rparr>"

definition request1 :: entry_request where
  "request1 = \<lparr>er_companyId = ''c1'', er_entryNumber = ''JE-2024-001'', er_date = ''2024-01-15'',
      er_description = ''Sale'', er_reference = None, er_totalAmount = ''999999.00''\<rparr>"

definition update1 :: entry_update_request where
  "update1 = \<lparr>eu_entryNumber = None, eu_date = None, eu_description = Some ''Corrected'',
      eu_reference = None, eu_totalAmount = Some ''1.00''\<rparr>"

text \<open>The specification's scenario: cash is debited and sales credited with 1000.00 by
  entry \<open>e1\<close>, which is then replaced by the same lines at 500.00.\<close>

definition lines1 :: "insert_line list" where
  "lines1 = [debitLine ''a1'' (Dec 100000 2), creditLine ''a3'' (Dec 100000 2)]"

definition lines2 :: "insert_line list" where
  "lines2 = [debitLine ''a1'' (Dec 50000 2), creditLine ''a3'' (Dec 50000 2)]"

definition posted1 :: "(error + journal_entry) \<times> db" where
  "posted1 = post_journal_entries db0 ''e1'' request1 lines1"

definition entry1 :: journal_entry where
  "entry1 = projr (fst posted1)"

definition db1 :: db where
  "db1 = snd posted1"

definition updated1 :: "(error + journal_entry) \<times> db" where
  "updated1 = put_journal_entries db1 ''e1'' update1 lines2"

definition entry2 :: journal_entry where
  "entry2 = projr (fst updated1)"

definition db2 :: db where
  "db2 = snd updated1"

definition entryPatch1 :: partial_journal_entry where
  "entryPatch1 = \<lparr>pe_companyId = None, pe_entryNumber = None, pe_date = None,
      pe_description = Some ''Corrected'', pe_reference = None,
      pe_totalAmount = Some (Fixed (Dec 50000 2)), pe_createdBy = None\<rparr>"



text \<open>Replacement lines that debit and credit the same account by the same amount.\<close>

definition zeroLines :: "insert_line list" where
  "zeroLines = [debitLine ''a1'' (Dec 1000 2), creditLine ''a1'' (Dec 1000 2)]"

definition updatedZero :: "(error + journal_entry) \<times> db" where
  "updatedZero = put_journal_entries db1 ''e1'' update1 zeroLines"

definition entryZero :: journal_entry where
  "entryZero = projr (fst updatedZero)"

definition dbZero :: db where
  "dbZero = snd updatedZero"

text \<open>Lines that debit cash with 1000.00 and credit the loan with 999.99.\<close>

definition offByCentLines :: "insert_line list" where
  "offByCentLines = [debitLine ''a1'' (Dec 100000 2), creditLine ''a2'' (Dec 99999 2)]"

text \<open>Lines that debit cash and credit sales with 1.005, and the state after they are
  posted as entry \<open>e1\<close> and after that entry is replaced by \<open>zeroLines\<close>.\<close>

definition halfCentLines :: "insert_line list" where
  "halfCentLines = [debitLine ''a1'' (Dec 1005 3), creditLine ''a3'' (Dec 1005 3)]"

definition dbHalf :: db where
  "dbHalf = snd (post_journal_entries db0 ''e1'' request1 halfCentLines)"

definition dbHalfZero :: db where
  "dbHalfZero = snd (put_journal_entries dbHalf ''e1'' update1 zeroLines)"



section \<open>Rounding to binary64\<close>

lemma pow2_ratio: "(2::real) ^ nat e / 2 ^ nat (- e) = 2 powi e"
  by (cases "0 \<le> e") (simp_all add: power_int_def power_inverse field_simps)

lemma roundHalfEven_near:
  assumes "0 < d"
  shows "\<bar>real_of_int (roundHalfEven n d) - of_int n / of_int d\<bar> \<le> 1 / 2"
proof -
  define q where "q = n div d"
  define r where "r = n mod d"
  have n: "n = q * d + r" by (simp add: q_def r_def)
  have r: "0 \<le> r" "r < d" using assms by (simp_all add: r_def)
  have e: "real_of_int n / of_int d = of_int q + of_int r / of_int d"
    using assms by (simp add: n field_simps)
  have h1: "2 * r < d \<Longrightarrow> real_of_int r / of_int d < 1 / 2"
    using assms by (simp add: field_simps)
  have h2: "d < 2 * r \<Longrightarrow> real_of_int r / of_int d > 1 / 2"
    using assms by (simp add: field_simps)
  have h3: "2 * r = d \<Longrightarrow> real_of_int r / of_int d = 1 / 2"
    using assms by (auto simp add: field_simps)
  have h4: "0 \<le> real_of_int r / of_int d" "real_of_int r / of_int d < 1"
    using assms r by (simp_all add: field_simps)
  consider "2 * r < d" | "d < 2 * r" | "2 * r = d" by linarith
  then show ?thesis
  proof cases
    case 1
    then have "roundHalfEven n d = q" by (simp add: roundHalfEven_def q_def r_def Let_def)
    then show ?thesis using e h1[OF 1] h4 by simp
  next
    case 2
    then have "roundHalfEven n d = q + 1" by (simp add: roundHalfEven_def q_def r_def Let_def)
    then show ?thesis using e h2[OF 2] h4 by simp
  next
    case 3
    then have "roundHalfEven n d = q \<or> roundHalfEven n d = q + 1"
      by (simp add: roundHalfEven_def q_def r_def Let_def)
    then show ?thesis using e h3[OF 3] by auto
  qed
qed

lemma roundHalfEven_exact:
  assumes "0 < d" and "n = k * d"
  shows "roundHalfEven n d = k"
  using assms by (simp add: roundHalfEven_def Let_def)

lemma roundHalfEven_le:
  assumes "0 < d" and "n \<le> k * d"
  shows "roundHalfEven n d \<le> k"
proof -
  define q where "q = n div d"
  define r where "r = n mod d"
  have n: "n = q * d + r" by (simp add: q_def r_def)
  have r: "0 \<le> r" "r < d" using assms by (simp_all add: r_def)
  have "q * d \<le> k * d" using n r assms by linarith
  then have qk: "q \<le> k" using assms(1) by (simp add: mult_le_cancel_right)
  show ?thesis
  proof (cases "q = k")
    case True
    then have "r = 0" using n r assms by simp
    then show ?thesis using True assms(1)
      by (simp add: roundHalfEven_def Let_def q_def[symmetric] r_def[symmetric])
  next
    case False
    then have "q + 1 \<le> k" using qk by simp
    moreover have "roundHalfEven n d \<le> q + 1"
      by (simp add: roundHalfEven_def Let_def q_def[symmetric] r_def[symmetric])
    ultimately show ?thesis by simp
  qed
qed

lemma roundHalfEven_nonneg:
  assumes "0 < d" and "0 \<le> n"
  shows "0 \<le> roundHalfEven n d"
proof -
  have "0 \<le> n div d" using assms by (simp add: pos_imp_zdiv_nonneg_iff)
  then show ?thesis by (simp add: roundHalfEven_def Let_def)
qed

lemma ilog2_bounds:
  assumes "0 < a" and "0 < q"
  shows "2 powi (ilog2 a q) \<le> real_of_int a / of_int q"
    and "real_of_int a / of_int q < 2 powi (ilog2 a q + 1)"
proof -
  define la where "la = bitlen a"
  define lq where "lq = bitlen q"
  define k where "k = la - lq"
  have la: "2 ^ nat (la - 1) \<le> a" "a < 2 ^ nat la"
    using bitlen_bounds[OF assms(1)] by (simp_all add: la_def)
  have lq: "2 ^ nat (lq - 1) \<le> q" "q < 2 ^ nat lq"
    using bitlen_bounds[OF assms(2)] by (simp_all add: lq_def)
  have la1: "1 \<le> la" using assms(1) bitlen_eq_zero_iff[of a] bitlen_nonneg[of a]
    unfolding la_def by linarith
  have lq1: "1 \<le> lq" using assms(2) bitlen_eq_zero_iff[of q] bitlen_nonneg[of q]
    unfolding lq_def by linarith
  have ra: "2 powi (la - 1) \<le> real_of_int a" "real_of_int a < 2 powi la"
  proof -
    have "real_of_int (2 ^ nat (la - 1)) \<le> real_of_int a" using la(1) by linarith
    then show "2 powi (la - 1) \<le> real_of_int a" using la1 by (simp add: power_int_def)
    have "real_of_int a < real_of_int (2 ^ nat la)" using la(2) by linarith
    then show "real_of_int a < 2 powi la" using la1 by (simp add: power_int_def)
  qed
  have rq: "2 powi (lq - 1) \<le> real_of_int q" "real_of_int q < 2 powi lq"
  proof -
    have "real_of_int (2 ^ nat (lq - 1)) \<le> real_of_int q" using lq(1) by linarith
    then show "2 powi (lq - 1) \<le> real_of_int q" using lq1 by (simp add: power_int_def)
    have "real_of_int q < real_of_int (2 ^ nat lq)" using lq(2) by linarith
    then show "real_of_int q < 2 powi lq" using lq1 by (simp add: power_int_def)
  qed
  have qpos: "0 < real_of_int q" using assms(2) by simp
  have apos: "0 < real_of_int a" using assms(1) by simp
  have up: "real_of_int a / of_int q < 2 powi (k + 1)"
  proof -
    have "real_of_int a < 2 powi la" by (rule ra(2))
    also have "\<dots> = 2 powi (k + 1) * 2 powi (lq - 1)"
      by (simp add: k_def power_int_add[symmetric])
    also have "\<dots> \<le> 2 powi (k + 1) * real_of_int q"
      using rq(1) by (simp add: mult_left_mono)
    finally show ?thesis using qpos by (simp add: field_simps)
  qed
  have low: "2 powi (k - 1) \<le> real_of_int a / of_int q"
  proof -
    have "2 powi (k - 1) * real_of_int q \<le> 2 powi (k - 1) * 2 powi lq"
      using rq(2) by (simp add: mult_left_mono)
    also have "\<dots> = 2 powi (la - 1)"
      by (simp add: k_def power_int_add[symmetric])
    also have "\<dots> \<le> real_of_int a" by (rule ra(1))
    finally show ?thesis using qpos by (simp add: field_simps)
  qed
  have cond: "(q * 2 ^ nat k \<le> a * 2 ^ nat (- k)) \<longleftrightarrow> 2 powi k \<le> real_of_int a / of_int q"
  proof -
    have "(q * 2 ^ nat k \<le> a * 2 ^ nat (- k))
        \<longleftrightarrow> real_of_int (q * 2 ^ nat k) \<le> real_of_int (a * 2 ^ nat (- k))"
      by linarith
    also have "\<dots> \<longleftrightarrow> real_of_int q * 2 ^ nat k \<le> real_of_int a * 2 ^ nat (- k)" by simp
    also have "\<dots> \<longleftrightarrow> 2 ^ nat k / 2 ^ nat (- k) \<le> real_of_int a / real_of_int q"
      using qpos by (simp add: field_simps)
    finally show ?thesis by (simp add: pow2_ratio)
  qed
  have il: "ilog2 a q = (if 2 powi k \<le> real_of_int a / of_int q then k else k - 1)"
    unfolding ilog2_def Let_def la_def[symmetric] lq_def[symmetric] k_def[symmetric]
    using cond by simp
  show "2 powi (ilog2 a q) \<le> real_of_int a / of_int q"
    using il low by simp
  show "real_of_int a / of_int q < 2 powi (ilog2 a q + 1)"
    using il up by (auto simp: not_le)
qed

lemma pow2_ratio': "(2::real) ^ nat (- e) / 2 ^ nat e = 2 powi (- e)"
  using pow2_ratio[of "- e"] by simp

lemma powi2_pos: "0 < (2::real) powi e"
  by (simp add: zero_less_power_int)

lemma powi2_mult_cancel: "(2::real) powi e * 2 powi (- e) = 1"
  by (simp add: power_int_minus)

lemma roundToDouble_cases:
  assumes p: "p \<noteq> 0" and q: "0 < q"
    and small: "real_of_int \<bar>p\<bar> / of_int q < 2 ^ 1023"
  obtains m e M E where
    "e = max (ilog2 \<bar>p\<bar> q - 52) (- 1074)"
    "m = roundHalfEven (\<bar>p\<bar> * 2 ^ nat (- e)) (q * 2 ^ nat e)"
    "roundToDouble p q = Finite M E"
    "real_of_int M * 2 powi E = of_int (sgn p) * (of_int m * 2 powi e)"
    "\<bar>M\<bar> < 2 ^ 53" "- 1074 \<le> E" "E \<le> 971" "0 \<le> m"
    "\<bar>real_of_int m - real_of_int \<bar>p\<bar> / of_int q * 2 powi (- e)\<bar> \<le> 1 / 2"
    "e = - 1074 \<or> 2 powi (e + 52) \<le> real_of_int \<bar>p\<bar> / of_int q"
    "- 1074 \<le> e"
proof -
  define a where "a = \<bar>p\<bar>"
  define k where "k = ilog2 a q"
  define e where "e = max (k - 52) (- 1074)"
  define n where "n = a * 2 ^ nat (- e)"
  define d where "d = q * 2 ^ nat e"
  define m where "m = roundHalfEven n d"
  define x where "x = real_of_int a / of_int q"
  have a: "0 < a" using p by (simp add: a_def)
  have d: "0 < d" using q by (simp add: d_def)
  have n: "0 \<le> n" using a by (simp add: n_def)
  have kb: "2 powi k \<le> x" "x < 2 powi (k + 1)"
    using ilog2_bounds[OF a q] by (simp_all add: k_def x_def)
  have "2 powi k < (2::real) powi 1023"
    using kb(1) small by (simp add: x_def a_def)
  then have k: "k < 1023" by (rule power_int_le_imp_less_exp[rotated]) simp_all
  have e: "- 1074 \<le> e" "e \<le> 970" "k - 52 \<le> e" using k by (simp_all add: e_def)
  have nd: "real_of_int n / of_int d = x * 2 powi (- e)"
  proof -
    have "real_of_int n / of_int d = x * (2 ^ nat (- e) / 2 ^ nat e)"
      by (simp add: n_def d_def x_def)
    then show ?thesis by (simp add: pow2_ratio')
  qed
  have m0: "0 \<le> m" unfolding m_def by (rule roundHalfEven_nonneg[OF d n])
  have "x * 2 powi (- e) < 2 powi (k + 1) * 2 powi (- e)"
    using kb(2) powi2_pos[of "- e"] by (simp add: mult_strict_right_mono)
  also have "\<dots> = 2 powi (k + 1 - e)" by (simp add: power_int_add[symmetric])
  also have "\<dots> \<le> 2 powi 53" using e(3) by (intro power_int_increasing) simp_all
  finally have "real_of_int n / of_int d < 2 ^ 53" using nd by simp
  then have "real_of_int n < 2 ^ 53 * real_of_int d"
    using d by (simp add: field_simps)
  then have "real_of_int n < real_of_int (2 ^ 53 * d)" by simp
  then have "n \<le> 2 ^ 53 * d" by linarith
  then have m53: "m \<le> 2 ^ 53" unfolding m_def by (rule roundHalfEven_le[OF d])
  define E where "E = (if m = 2 ^ 53 then e + 1 else e)"
  define M' where "M' = (if m = 2 ^ 53 then 2 ^ 52 else m)"
  have E: "E \<le> 971" "- 1074 \<le> E" using e by (simp_all add: E_def)
  have M': "0 \<le> M'" "M' < 2 ^ 53" using m0 m53 by (auto simp add: M'_def)
  have v: "real_of_int M' * 2 powi E = real_of_int m * 2 powi e"
    by (simp add: M'_def E_def power_int_add)
  have rd: "roundToDouble p q = (if M' = 0 then Finite 0 0 else Finite (sgn p * M') E)"
    using p E(1)
    unfolding roundToDouble_def Let_def a_def[symmetric] k_def[symmetric] e_def[symmetric]
      n_def[symmetric] d_def[symmetric] m_def[symmetric] E_def[symmetric] M'_def[symmetric]
    by simp
  have f1: "e = max (ilog2 \<bar>p\<bar> q - 52) (- 1074)" by (simp add: e_def k_def a_def)
  have f2: "m = roundHalfEven (\<bar>p\<bar> * 2 ^ nat (- e)) (q * 2 ^ nat e)"
    by (simp add: m_def n_def d_def a_def)
  have f6: "\<bar>real_of_int m - real_of_int \<bar>p\<bar> / of_int q * 2 powi (- e)\<bar> \<le> 1 / 2"
    using roundHalfEven_near[OF d, of n] nd by (simp add: m_def x_def a_def)
  have f7: "e = - 1074 \<or> 2 powi (e + 52) \<le> real_of_int \<bar>p\<bar> / of_int q"
  proof (cases "e = - 1074")
    case False
    then have "e = k - 52" by (simp add: e_def max_def split: if_splits)
    then show ?thesis using kb(1) by (simp add: x_def a_def)
  qed simp
  show ?thesis
  proof (cases "M' = 0")
    case True
    then have m: "m = 0" by (auto simp: M'_def split: if_splits)
    have f3: "roundToDouble p q = Finite 0 0" using rd True by simp
    have f4: "real_of_int 0 * 2 powi 0 = of_int (sgn p) * (of_int m * 2 powi e)"
      using m by simp
    show ?thesis by (rule that[OF f1 f2 f3 f4 _ _ _ _ f6 f7 e(1)]) (simp_all add: m)
  next
    case False
    have s: "\<bar>sgn p * M'\<bar> = M'" using p M'(1) by (simp add: abs_mult abs_sgn_eq)
    have f3: "roundToDouble p q = Finite (sgn p * M') E" using rd False by simp
    have f4: "real_of_int (sgn p * M') * 2 powi E = of_int (sgn p) * (of_int m * 2 powi e)"
      using v by simp
    have f5: "\<bar>sgn p * M'\<bar> < 2 ^ 53" using s M'(2) by simp
    show ?thesis by (rule that[OF f1 f2 f3 f4 f5 E(2) E(1) m0 f6 f7 e(1)])
  qed
qed

lemma roundToDouble_zero: "roundToDouble 0 q = Finite 0 0"
  by (simp add: roundToDouble_def)

lemma roundToDouble_error:
  assumes q: "0 < q" and small: "\<bar>real_of_int p\<bar> / of_int q < 2 ^ 1023"
  shows "isDouble (roundToDouble p q)"
    and "\<bar>valof (roundToDouble p q) - of_int p / of_int q\<bar>
           \<le> \<bar>real_of_int p / of_int q\<bar> / 2 ^ 53 + 1 / 2 ^ 1075"
proof -
  have "isDouble (roundToDouble p q)
      \<and> \<bar>valof (roundToDouble p q) - of_int p / of_int q\<bar>
           \<le> \<bar>real_of_int p / of_int q\<bar> / 2 ^ 53 + 1 / 2 ^ 1075"
  proof (cases "p = 0")
    case True
    then show ?thesis by (simp add: roundToDouble_zero isDouble_def valof_def)
  next
    case False
    define x where "x = real_of_int \<bar>p\<bar> / of_int q"
    have x0: "0 \<le> x" using q by (simp add: x_def)
    have sm: "real_of_int \<bar>p\<bar> / of_int q < 2 ^ 1023" using small by simp
    obtain m e M E where c:
      "roundToDouble p q = Finite M E"
      "real_of_int M * 2 powi E = of_int (sgn p) * (of_int m * 2 powi e)"
      "\<bar>M\<bar> < 2 ^ 53" "- 1074 \<le> E" "E \<le> 971"
      "\<bar>real_of_int m - x * 2 powi (- e)\<bar> \<le> 1 / 2"
      "e = - 1074 \<or> 2 powi (e + 52) \<le> x"
      unfolding x_def by (rule roundToDouble_cases[OF False q sm]) blast
    have "real_of_int p = of_int (sgn p) * of_int \<bar>p\<bar>"
      by (metis of_int_mult sgn_mult_abs)
    then have px: "real_of_int p / of_int q = of_int (sgn p) * x"
      by (simp add: x_def)
    have s1: "\<bar>real_of_int (sgn p)\<bar> = 1" using False by (cases "0 < p") simp_all
    have "\<bar>real_of_int m * 2 powi e - x\<bar> = \<bar>(real_of_int m - x * 2 powi (- e)) * 2 powi e\<bar>"
      by (simp add: algebra_simps power_int_minus)
    also have "\<dots> = \<bar>real_of_int m - x * 2 powi (- e)\<bar> * 2 powi e"
      using powi2_pos[of e] by (simp add: abs_mult)
    also have "\<dots> \<le> 1 / 2 * 2 powi e"
      using c(6) powi2_pos[of e] by (intro mult_right_mono) simp_all
    finally have err: "\<bar>real_of_int m * 2 powi e - x\<bar> \<le> 2 powi e / 2" by simp
    have bound: "2 powi e / 2 \<le> x / 2 ^ 53 + 1 / 2 ^ 1075"
    proof (cases "e = - 1074")
      case True
      have "(2::real) powi (- 1074) / 2 = 1 / 2 ^ 1075"
        by (simp add: power_int_minus_divide)
      then show ?thesis using x0 True by simp
    next
      case False
      then have "2 powi (e + 52) \<le> x" using c(7) by simp
      moreover have "(2::real) powi (e + 52) = 2 powi e * 2 ^ 52"
        by (simp add: power_int_add)
      ultimately have "2 powi e / 2 \<le> x / 2 ^ 53" by (simp add: field_simps)
      then show ?thesis by (simp add: add_increasing2)
    qed
    have "\<bar>valof (roundToDouble p q) - of_int p / of_int q\<bar>
        = \<bar>of_int (sgn p) * (real_of_int m * 2 powi e - x)\<bar>"
      by (simp add: c(1) valof_def c(2) px algebra_simps)
    also have "\<dots> = \<bar>real_of_int m * 2 powi e - x\<bar>"
      using s1 by (simp add: abs_mult)
    finally have "\<bar>valof (roundToDouble p q) - of_int p / of_int q\<bar> \<le> x / 2 ^ 53 + 1 / 2 ^ 1075"
      using err bound by linarith
    moreover have "\<bar>real_of_int p / of_int q\<bar> = x" using q by (simp add: x_def)
    ultimately show ?thesis using c by (simp add: isDouble_def)
  qed
  then show "isDouble (roundToDouble p q)"
    and "\<bar>valof (roundToDouble p q) - of_int p / of_int q\<bar>
           \<le> \<bar>real_of_int p / of_int q\<bar> / 2 ^ 53 + 1 / 2 ^ 1075"
    by simp_all
qed

lemma roundToDouble_exact:
  assumes q: "0 < q"
    and rep: "real_of_int p / of_int q = of_int M0 * 2 powi E0"
    and M0: "\<bar>M0\<bar> < 2 ^ 53" and E0: "- 1074 \<le> E0"
    and small: "\<bar>real_of_int p\<bar> / of_int q < 2 ^ 1023"
  shows "valof (roundToDouble p q) = of_int p / of_int q"
proof (cases "p = 0")
  case True
  then show ?thesis by (simp add: roundToDouble_zero valof_def)
next
  case False
  define x where "x = real_of_int \<bar>p\<bar> / of_int q"
  have sm: "real_of_int \<bar>p\<bar> / of_int q < 2 ^ 1023" using small by simp
  obtain m e M E where c:
    "m = roundHalfEven (\<bar>p\<bar> * 2 ^ nat (- e)) (q * 2 ^ nat e)"
    "roundToDouble p q = Finite M E"
    "real_of_int M * 2 powi E = of_int (sgn p) * (of_int m * 2 powi e)"
    "e = - 1074 \<or> 2 powi (e + 52) \<le> x"
    "- 1074 \<le> e"
    unfolding x_def by (rule roundToDouble_cases[OF False q sm]) blast
  have "real_of_int p = of_int (sgn p) * of_int \<bar>p\<bar>"
    by (metis of_int_mult sgn_mult_abs)
  then have px: "real_of_int p / of_int q = of_int (sgn p) * x"
    by (simp add: x_def)
  have xM: "x = of_int \<bar>M0\<bar> * 2 powi E0"
  proof -
    have "x = \<bar>real_of_int p / of_int q\<bar>" using q by (simp add: x_def)
    also have "\<dots> = \<bar>of_int M0 * 2 powi E0\<bar>" by (simp add: rep)
    also have "\<dots> = of_int \<bar>M0\<bar> * 2 powi E0"
      using powi2_pos[of E0] by (simp add: abs_mult)
    finally show ?thesis .
  qed
  have eE: "e \<le> E0"
  proof (cases "e = - 1074")
    case True
    then show ?thesis using E0 by simp
  next
    case False
    then have "2 powi (e + 52) \<le> x" using c(4) by simp
    also have "x < 2 ^ 53 * 2 powi E0"
      unfolding xM using M0 powi2_pos[of E0] by (intro mult_strict_right_mono) simp_all
    also have "\<dots> = 2 powi (E0 + 53)" by (simp add: power_int_add)
    finally have "(2::real) powi (e + 52) < 2 powi (E0 + 53)" .
    then have "e + 52 < E0 + 53"
      by (metis linorder_not_less one_le_numeral power_int_increasing)
    then show ?thesis by simp
  qed
  define K where "K = \<bar>M0\<bar> * 2 ^ nat (E0 - e)"
  have "real_of_int (\<bar>p\<bar> * 2 ^ nat (- e)) / real_of_int (q * 2 ^ nat e) = x * 2 powi (- e)"
  proof -
    have "real_of_int (\<bar>p\<bar> * 2 ^ nat (- e)) / real_of_int (q * 2 ^ nat e)
        = x * (2 ^ nat (- e) / 2 ^ nat e)"
      by (simp add: x_def)
    then show ?thesis by (simp add: pow2_ratio')
  qed
  also have "\<dots> = of_int \<bar>M0\<bar> * 2 powi (E0 - e)"
    by (simp add: xM power_int_diff power_int_minus field_simps)
  also have "\<dots> = real_of_int K"
    using eE by (simp add: K_def power_int_def)
  finally have "real_of_int (\<bar>p\<bar> * 2 ^ nat (- e)) = real_of_int (K * (q * 2 ^ nat e))"
    using q by (simp add: field_simps)
  then have "\<bar>p\<bar> * 2 ^ nat (- e) = K * (q * 2 ^ nat e)" by linarith
  then have m: "m = K" unfolding c(1) using q by (intro roundHalfEven_exact) simp_all
  have "real_of_int m * 2 powi e = of_int \<bar>M0\<bar> * (2 powi (E0 - e) * 2 powi e)"
    using eE by (simp add: m K_def power_int_def)
  also have "\<dots> = x" by (simp add: xM power_int_add[symmetric])
  finally show ?thesis by (simp add: c(2) valof_def c(3) px)
qed

lemma isDoubleE:
  assumes "isDouble x"
  obtains m e where "x = Finite m e" "\<bar>m\<bar> < 2 ^ 53" "- 1074 \<le> e" "e \<le> 971"
  using assms by (cases x) (auto simp: isDouble_def)

lemma pow2_shift:
  assumes "e \<le> e1"
  shows "(2::real) ^ nat (e1 - e) * 2 powi e = 2 powi e1"
proof -
  have "(2::real) ^ nat (e1 - e) = 2 powi (e1 - e)" using assms by (simp add: power_int_def)
  then show ?thesis by (simp add: power_int_add[symmetric])
qed

lemma add_ratio:
  fixes ma ea mb eb e :: int
  assumes "e = min ea eb"
  shows "real_of_int ((ma * 2 ^ nat (ea - e) + mb * 2 ^ nat (eb - e)) * 2 ^ nat e)
           / real_of_int (2 ^ nat (- e))
         = of_int ma * 2 powi ea + of_int mb * 2 powi eb"
proof -
  have "real_of_int ((ma * 2 ^ nat (ea - e) + mb * 2 ^ nat (eb - e)) * 2 ^ nat e)
           / real_of_int (2 ^ nat (- e))
      = (of_int ma * 2 ^ nat (ea - e) + of_int mb * 2 ^ nat (eb - e)) * (2 ^ nat e / 2 ^ nat (- e))"
    by simp
  also have "\<dots> = of_int ma * (2 ^ nat (ea - e) * 2 powi e) + of_int mb * (2 ^ nat (eb - e) * 2 powi e)"
    by (simp add: pow2_ratio algebra_simps)
  also have "\<dots> = of_int ma * 2 powi ea + of_int mb * 2 powi eb"
    by (simp add: pow2_shift assms)
  finally show ?thesis .
qed

lemma valof_neg: "isDouble x \<Longrightarrow> valof (negNumber x) = - valof x"
  by (erule isDoubleE) (simp add: valof_def)

lemma isDouble_neg: "isDouble x \<Longrightarrow> isDouble (negNumber x)"
  by (erule isDoubleE) (simp add: isDouble_def)

lemma valof_abs: "isDouble x \<Longrightarrow> valof (absNumber x) = \<bar>valof x\<bar>"
  by (erule isDoubleE) (simp add: valof_def abs_mult powi2_pos less_imp_le)

lemma isDouble_abs: "isDouble x \<Longrightarrow> isDouble (absNumber x)"
  by (erule isDoubleE) (simp add: isDouble_def)

lemma add_error:
  assumes "isDouble x" and "isDouble y" and "\<bar>valof x + valof y\<bar> < 2 ^ 1023"
  shows "isDouble (addNumber x y)"
    and "\<bar>valof (addNumber x y) - (valof x + valof y)\<bar> \<le> \<bar>valof x + valof y\<bar> / 2 ^ 53 + 1 / 2 ^ 1075"
proof -
  obtain m1 e1 where x: "x = Finite m1 e1" using assms(1) by (rule isDoubleE)
  obtain m2 e2 where y: "y = Finite m2 e2" using assms(2) by (rule isDoubleE)
  define e where "e = min e1 e2"
  define P where "P = (m1 * 2 ^ nat (e1 - e) + m2 * 2 ^ nat (e2 - e)) * 2 ^ nat e"
  define Q :: int where "Q = 2 ^ nat (- e)"
  have a: "addNumber x y = roundToDouble P Q" by (simp add: x y Let_def P_def Q_def e_def)
  have r: "real_of_int P / real_of_int Q = valof x + valof y"
    unfolding P_def Q_def using add_ratio[OF e_def, of m1 m2] by (simp add: x y valof_def)
  have Q: "0 < Q" by (simp add: Q_def)
  have sm: "\<bar>real_of_int P\<bar> / real_of_int Q < 2 ^ 1023"
    using assms(3) r Q by (simp add: abs_divide[symmetric] del: abs_divide)
  show "isDouble (addNumber x y)" unfolding a by (rule roundToDouble_error(1)[OF Q sm])
  show "\<bar>valof (addNumber x y) - (valof x + valof y)\<bar> \<le> \<bar>valof x + valof y\<bar> / 2 ^ 53 + 1 / 2 ^ 1075"
    using roundToDouble_error(2)[OF Q sm] unfolding a r .
qed

lemma add_exact:
  assumes "isDouble x" and "isDouble y" and "\<bar>valof x + valof y\<bar> < 2 ^ 1023"
    and "valof x + valof y = of_int M0 * 2 powi E0" and "\<bar>M0\<bar> < 2 ^ 53" and "- 1074 \<le> E0"
  shows "valof (addNumber x y) = valof x + valof y"
proof -
  obtain m1 e1 where x: "x = Finite m1 e1" using assms(1) by (rule isDoubleE)
  obtain m2 e2 where y: "y = Finite m2 e2" using assms(2) by (rule isDoubleE)
  define e where "e = min e1 e2"
  define P where "P = (m1 * 2 ^ nat (e1 - e) + m2 * 2 ^ nat (e2 - e)) * 2 ^ nat e"
  define Q :: int where "Q = 2 ^ nat (- e)"
  have a: "addNumber x y = roundToDouble P Q" by (simp add: x y Let_def P_def Q_def e_def)
  have r: "real_of_int P / real_of_int Q = valof x + valof y"
    unfolding P_def Q_def using add_ratio[OF e_def, of m1 m2] by (simp add: x y valof_def)
  have Q: "0 < Q" by (simp add: Q_def)
  have sm: "\<bar>real_of_int P\<bar> / real_of_int Q < 2 ^ 1023"
    using assms(3) r Q by (simp add: abs_divide[symmetric] del: abs_divide)
  have rep: "real_of_int P / real_of_int Q = of_int M0 * 2 powi E0" using r assms(4) by simp
  show ?thesis unfolding a using roundToDouble_exact[OF Q rep assms(5) assms(6) sm] r by simp
qed

lemma zero_isDouble: "isDouble (Finite 0 0)"
  by (simp add: isDouble_def)

lemma valof_zero: "valof (Finite 0 0) = 0"
  by (simp add: valof_def)

lemma add_zero_right:
  assumes "isDouble x" and "\<bar>valof x\<bar> < 2 ^ 1023"
  shows "valof (addNumber x (Finite 0 0)) = valof x" and "isDouble (addNumber x (Finite 0 0))"
proof -
  obtain m e where x: "x = Finite m e" "\<bar>m\<bar> < 2 ^ 53" "- 1074 \<le> e"
    using assms(1) by (rule isDoubleE)
  have s: "\<bar>valof x + valof (Finite 0 0)\<bar> < 2 ^ 1023" using assms(2) by (simp add: valof_zero)
  have "valof (addNumber x (Finite 0 0)) = valof x + valof (Finite 0 0)"
    by (rule add_exact[OF assms(1) zero_isDouble s, of m e]) (use x in \<open>simp_all add: valof_def\<close>)
  then show "valof (addNumber x (Finite 0 0)) = valof x" by (simp add: valof_zero)
  show "isDouble (addNumber x (Finite 0 0))" by (rule add_error(1)[OF assms(1) zero_isDouble s])
qed

lemma add_zero_left:
  assumes "isDouble x" and "\<bar>valof x\<bar> < 2 ^ 1023"
  shows "valof (addNumber (Finite 0 0) x) = valof x" and "isDouble (addNumber (Finite 0 0) x)"
proof -
  obtain m e where x: "x = Finite m e" "\<bar>m\<bar> < 2 ^ 53" "- 1074 \<le> e"
    using assms(1) by (rule isDoubleE)
  have s: "\<bar>valof (Finite 0 0) + valof x\<bar> < 2 ^ 1023" using assms(2) by (simp add: valof_zero)
  have "valof (addNumber (Finite 0 0) x) = valof (Finite 0 0) + valof x"
    by (rule add_exact[OF zero_isDouble assms(1) s, of m e]) (use x in \<open>simp_all add: valof_def\<close>)
  then show "valof (addNumber (Finite 0 0) x) = valof x" by (simp add: valof_zero)
  show "isDouble (addNumber (Finite 0 0) x)" by (rule add_error(1)[OF zero_isDouble assms(1) s])
qed

lemma less_valof:
  assumes "isDouble x" and "isDouble y"
  shows "lessNumber x y \<longleftrightarrow> valof x < valof y"
proof -
  obtain m1 e1 where x: "x = Finite m1 e1" using assms(1) by (rule isDoubleE)
  obtain m2 e2 where y: "y = Finite m2 e2" using assms(2) by (rule isDoubleE)
  define e where "e = min e1 e2"
  have "lessNumber x y \<longleftrightarrow> m1 * 2 ^ nat (e1 - e) < m2 * 2 ^ nat (e2 - e)"
    by (simp add: x y Let_def e_def)
  also have "\<dots> \<longleftrightarrow> real_of_int (m1 * 2 ^ nat (e1 - e)) < real_of_int (m2 * 2 ^ nat (e2 - e))"
    by linarith
  also have "\<dots> \<longleftrightarrow> real_of_int (m1 * 2 ^ nat (e1 - e)) * 2 powi e < real_of_int (m2 * 2 ^ nat (e2 - e)) * 2 powi e"
    using powi2_pos[of e] by simp
  also have "\<dots> \<longleftrightarrow> real_of_int m1 * (2 ^ nat (e1 - e) * 2 powi e) < real_of_int m2 * (2 ^ nat (e2 - e) * 2 powi e)"
    by (simp add: mult.assoc)
  also have "\<dots> \<longleftrightarrow> valof x < valof y"
    by (simp add: pow2_shift e_def x y valof_def)
  finally show ?thesis .
qed

lemma strictEq_valof:
  assumes "isDouble x" and "isDouble y"
  shows "strictEquals x y \<longleftrightarrow> valof x = valof y"
proof -
  obtain m1 e1 where x: "x = Finite m1 e1" using assms(1) by (rule isDoubleE)
  obtain m2 e2 where y: "y = Finite m2 e2" using assms(2) by (rule isDoubleE)
  define e where "e = min e1 e2"
  have "strictEquals x y \<longleftrightarrow> m1 * 2 ^ nat (e1 - e) = m2 * 2 ^ nat (e2 - e)"
    by (simp add: x y Let_def e_def)
  also have "\<dots> \<longleftrightarrow> real_of_int (m1 * 2 ^ nat (e1 - e)) = real_of_int (m2 * 2 ^ nat (e2 - e))"
    by linarith
  also have "\<dots> \<longleftrightarrow> real_of_int (m1 * 2 ^ nat (e1 - e)) * 2 powi e = real_of_int (m2 * 2 ^ nat (e2 - e)) * 2 powi e"
    using powi2_pos[of e] by simp
  also have "\<dots> \<longleftrightarrow> real_of_int m1 * (2 ^ nat (e1 - e) * 2 powi e) = real_of_int m2 * (2 ^ nat (e2 - e) * 2 powi e)"
    by (simp add: mult.assoc)
  also have "\<dots> \<longleftrightarrow> valof x = valof y"
    by (simp add: pow2_shift e_def x y valof_def)
  finally show ?thesis .
qed

lemma toFixed_near:
  assumes "isDouble x" and "\<bar>valof x - of_int w / 100\<bar> < 1 / 200" and "\<bar>w\<bar> < 10 ^ 22"
  shows "toFixed 2 x = Fixed (Dec w 2)"
proof -
  obtain m e where x: "x = Finite m e" using assms(1) by (rule isDoubleE)
  define v where "v = valof x"
  have v: "v = of_int m * 2 powi e" by (simp add: v_def x valof_def)
  have av: "\<bar>v\<bar> = of_int \<bar>m\<bar> * 2 powi e"
    using powi2_pos[of e] by (simp add: v abs_mult)
  have "sgn (real_of_int m) = of_int (sgn m)"
    by (cases "m = 0"; cases "0 < m") simp_all
  then have sg: "sgn v = of_int (sgn m)"
    using powi2_pos[of e] by (simp add: v sgn_mult)
  have Dpos: "0 < (2::real) ^ nat (- e)" by simp
  have small: "\<bar>v\<bar> < 10 ^ 21"
  proof -
    have "real_of_int \<bar>w\<bar> < real_of_int (10 ^ 22)" using assms(3) by (simp only: of_int_less_iff)
    then have "\<bar>real_of_int w\<bar> < 10 ^ 22" by simp
    then show ?thesis using assms(2) unfolding v_def[symmetric] by (simp add: abs_if split: if_splits)
  qed
  have c: "\<not> (10 ^ 21 * 2 ^ nat (- e) \<le> \<bar>m\<bar> * 2 ^ nat e)"
  proof
    assume "10 ^ 21 * 2 ^ nat (- e) \<le> \<bar>m\<bar> * 2 ^ nat e"
    then have "real_of_int (10 ^ 21 * 2 ^ nat (- e)) \<le> real_of_int (\<bar>m\<bar> * 2 ^ nat e)" by linarith
    then have "10 ^ 21 \<le> real_of_int \<bar>m\<bar> * (2 ^ nat e / 2 ^ nat (- e))"
      by (simp add: field_simps)
    then show False using small by (simp add: pow2_ratio av)
  qed
  define n where "n = (2 * \<bar>m\<bar> * 10 ^ 2 * 2 ^ nat e + 2 ^ nat (- e)) div (2 * 2 ^ nat (- e))"
  have "n = \<lfloor>real_of_int (2 * \<bar>m\<bar> * 10 ^ 2 * 2 ^ nat e + 2 ^ nat (- e)) / real_of_int (2 * 2 ^ nat (- e))\<rfloor>"
    unfolding n_def by (simp only: floor_divide_of_int_eq)
  also have "real_of_int (2 * \<bar>m\<bar> * 10 ^ 2 * 2 ^ nat e + 2 ^ nat (- e)) / real_of_int (2 * 2 ^ nat (- e))
      = real_of_int \<bar>m\<bar> * 100 * (2 ^ nat e / 2 ^ nat (- e)) + 1 / 2"
    by (simp add: field_simps)
  also have "\<dots> = \<bar>v\<bar> * 100 + 1 / 2" by (simp add: pow2_ratio av)
  finally have n: "n = \<lfloor>\<bar>v\<bar> * 100 + 1 / 2\<rfloor>" .
  have tf: "toFixed 2 x = Fixed (Dec (sgn m * n) 2)"
    using c by (simp add: x n_def)
  have near: "\<bar>v * 100 - of_int w\<bar> < 1 / 2" using assms(2) unfolding v_def[symmetric] by (simp add: abs_if split: if_splits)
  have "sgn m * n = w"
  proof (cases "0 < w")
    case True
    then have "1 \<le> real_of_int w" by simp
    then have vp: "0 < v" using near by (simp add: abs_if split: if_splits)
    then have "sgn m = 1" using sg by (metis of_int_eq_1_iff sgn_pos)
    moreover have "n = w" unfolding n using vp near by (simp add: abs_if floor_eq_iff split: if_splits)
    ultimately show ?thesis by simp
  next
    case False
    show ?thesis
    proof (cases "w = 0")
      case True
      then have "n = 0" unfolding n using near by (simp add: abs_if floor_eq_iff split: if_splits)
      then show ?thesis using True by simp
    next
      case False
      then have "w < 0" using \<open>\<not> 0 < w\<close> by simp
      then have "real_of_int w \<le> - 1" by linarith
      then have vn: "v < 0" using near by (simp add: abs_if split: if_splits)
      then have "real_of_int (sgn m) = - 1" using sg by simp
      then have "sgn m = - 1" by linarith
      moreover have "n = - w" unfolding n using vn near by (simp add: abs_if floor_eq_iff split: if_splits)
      ultimately show ?thesis by simp
    qed
  qed
  then show ?thesis using tf by simp
qed

section \<open>Amounts of whole cents in binary64\<close>

lemma centsOf_SomeD:
  assumes "centsOf x = Some X"
  obtains c s where "x = Dec c s" "c * 100 = X * 10 ^ s"
proof (cases x)
  case DNaN
  then show ?thesis using assms by (simp add: centsOf_def)
next
  case (Dec c s)
  then have m: "(c * 100) mod 10 ^ s = 0" and X: "X = c * 100 div 10 ^ s"
    using assms by (auto simp: centsOf_def split: if_splits)
  have "c * 100 = X * 10 ^ s" using m X by auto
  then show ?thesis using Dec that by blast
qed

lemma centsOf_Dec2 [simp]: "centsOf (Dec c 2) = Some c"
  by (simp add: centsOf_def)

lemma cents_Dec2 [simp]: "cents (Dec c 2) = c"
  by (simp add: cents_def)

lemma cents_Some: "centsOf x = Some X \<Longrightarrow> cents x = X"
  by (simp add: cents_def)

lemma centsOf_ratio:
  assumes "x = Dec c s" and "c * 100 = X * 10 ^ s"
  shows "real_of_int c / real_of_int (10 ^ s) = of_int X / 100"
proof -
  have "real_of_int (c * 100) = real_of_int (X * 10 ^ s)" using assms(2) by simp
  then show ?thesis by (simp add: field_simps)
qed

lemma decimalValue_cents: "centsOf x = Some X \<Longrightarrow> decimalValue x = of_int X / 100"
  by (erule centsOf_SomeD) (use centsOf_ratio in \<open>simp add: decimalValue_def\<close>)

lemma money_cents: "money x \<Longrightarrow> x = Dec (cents x) 2 \<and> \<bar>cents x\<bar> < 10 ^ 15"
  by (cases x) (simp_all add: money_def)

lemma money_centsOf: "money x \<Longrightarrow> centsOf x = Some (cents x)"
  using money_cents[of x] by (metis centsOf_Dec2)

lemma parseFloat_zero_cents: "centsOf x = Some 0 \<Longrightarrow> parseFloat x = Finite 0 0"
  by (erule centsOf_SomeD) (simp add: roundToDouble_zero)

lemma cents_bound_real:
  assumes "\<bar>X\<bar> < 10 ^ 15"
  shows "\<bar>real_of_int X / 100\<bar> < 10 ^ 13"
proof -
  have "real_of_int \<bar>X\<bar> < real_of_int (10 ^ 15)" using assms by (simp only: of_int_less_iff)
  then show ?thesis by simp
qed

lemma tiny: "(1::real) / 2 ^ 1075 < 1 / 10 ^ 20"
  by simp

lemma parseFloat_near:
  assumes "centsOf x = Some X" and "\<bar>X\<bar> < 10 ^ 15"
  shows "near (parseFloat x) X"
proof -
  obtain c s where x: "x = Dec c s" and cs: "c * 100 = X * 10 ^ s"
    using assms(1) by (rule centsOf_SomeD)
  have r: "real_of_int c / real_of_int (10 ^ s) = of_int X / 100"
    by (rule centsOf_ratio[OF x cs])
  have b: "\<bar>real_of_int X / 100\<bar> < 10 ^ 13" by (rule cents_bound_real[OF assms(2)])
  have q: "(0::int) < 10 ^ s" by simp
  have sm: "\<bar>real_of_int c\<bar> / real_of_int (10 ^ s) < 2 ^ 1023"
  proof -
    have "\<bar>real_of_int c\<bar> / real_of_int (10 ^ s) = \<bar>real_of_int c / real_of_int (10 ^ s)\<bar>"
      by simp
    also have "\<dots> = \<bar>real_of_int X / 100\<bar>" by (simp only: r)
    also have "\<dots> < 10 ^ 13" by (rule b)
    also have "(10::real) ^ 13 < 2 ^ 1023" by simp
    finally show ?thesis .
  qed
  have d: "isDouble (roundToDouble c (10 ^ s))" by (rule roundToDouble_error(1)[OF q sm])
  have "\<bar>valof (roundToDouble c (10 ^ s)) - of_int X / 100\<bar>
      \<le> \<bar>real_of_int X / 100\<bar> / 2 ^ 53 + 1 / 2 ^ 1075"
    using roundToDouble_error(2)[OF q sm] unfolding r .
  also have "\<dots> \<le> 10 ^ 13 / 2 ^ 53 + 1 / 10 ^ 20"
    using b tiny by (intro add_mono divide_right_mono) simp_all
  also have "\<dots> \<le> 111023 / 10 ^ 8" by simp
  finally show ?thesis using d assms(2) by (simp add: near_def x)
qed

lemma nearD:
  assumes "near x X"
  shows "isDouble x" and "\<bar>X\<bar> < 10 ^ 15"
    and "\<bar>valof x - of_int X / 100\<bar> \<le> 111023 / 100000000"
    and "\<bar>real_of_int X / 100\<bar> < 10000000000000"
proof -
  show "isDouble x" and a: "\<bar>X\<bar> < 10 ^ 15" using assms unfolding near_def by blast+
  have "\<bar>valof x - of_int X / 100\<bar> \<le> 111023 / 10 ^ 8" using assms unfolding near_def by blast
  then show "\<bar>valof x - of_int X / 100\<bar> \<le> 111023 / 100000000" by simp
  show "\<bar>real_of_int X / 100\<bar> < 10000000000000" using cents_bound_real[OF a] by simp
qed

lemma nearI:
  assumes "isDouble x" and "\<bar>X\<bar> < 10 ^ 15"
    and "\<bar>valof x - of_int X / 100\<bar> \<le> 111023 / 100000000"
  shows "near x X"
proof -
  have "\<bar>valof x - of_int X / 100\<bar> \<le> 111023 / 10 ^ 8" using assms(3) by simp
  then show ?thesis using assms(1,2) unfolding near_def by blast
qed

lemma near_zero: "near (Finite 0 0) 0"
  by (simp add: near_def isDouble_def valof_def)

lemma near_neg:
  assumes "near x X"
  shows "near (negNumber x) (- X)"
proof -
  have d: "isDouble x" by (rule nearD(1)[OF assms])
  have "valof (negNumber x) - of_int (- X) / 100 = - (valof x - of_int X / 100)"
    by (simp add: valof_neg[OF d])
  then have "\<bar>valof (negNumber x) - of_int (- X) / 100\<bar> = \<bar>valof x - of_int X / 100\<bar>"
    by (simp only: abs_minus)
  then show ?thesis
    using nearD[OF assms] isDouble_neg[OF d] by (intro nearI) simp_all
qed

lemma near_small:
  assumes "near x X"
  shows "\<bar>valof x\<bar> < 2 ^ 1023"
proof -
  have "\<bar>valof x\<bar> < 10000000000000 + 1" using nearD(3,4)[OF assms] by linarith
  also have "(10000000000000::real) + 1 < 2 ^ 1023" by simp
  finally show ?thesis .
qed

lemma near_add_zero:
  assumes "near x X"
  shows "near (addNumber x (Finite 0 0)) X"
  using add_zero_right[OF nearD(1)[OF assms] near_small[OF assms]] nearD[OF assms]
  by (intro nearI) simp_all

lemma near_zero_add:
  assumes "near x X"
  shows "near (addNumber (Finite 0 0) x) X"
  using add_zero_left[OF nearD(1)[OF assms] near_small[OF assms]] nearD[OF assms]
  by (intro nearI) simp_all

lemma near_sub_zero: "near x X \<Longrightarrow> near (subNumber x (Finite 0 0)) X"
  by (simp add: subNumber_def near_add_zero)

lemma near_zero_sub: "near x X \<Longrightarrow> near (subNumber (Finite 0 0) x) (- X)"
  by (simp add: subNumber_def near_zero_add near_neg)

lemma centLine_near:
  assumes "centLine debit credit"
  shows "near (subNumber (parseFloat debit) (parseFloat credit)) (cents debit - cents credit)"
proof -
  obtain D C where D: "centsOf debit = Some D" and C: "centsOf credit = Some C"
    using assms by (auto simp: centLine_def)
  have cD: "cents debit = D" and cC: "cents credit = C" using D C by (simp_all add: cents_Some)
  have r: "\<bar>D\<bar> < 10 ^ 15" "\<bar>C\<bar> < 10 ^ 15" and z: "D = 0 \<or> C = 0"
    using assms cD cC by (simp_all add: centLine_def)
  from z show ?thesis
  proof
    assume "D = 0"
    then have "parseFloat debit = Finite 0 0" using D by (simp add: parseFloat_zero_cents)
    then show ?thesis
      using near_zero_sub[OF parseFloat_near[OF C r(2)]] cD cC \<open>D = 0\<close> by simp
  next
    assume "C = 0"
    then have "parseFloat credit = Finite 0 0" using C by (simp add: parseFloat_zero_cents)
    then show ?thesis
      using near_sub_zero[OF parseFloat_near[OF D r(1)]] cD cC \<open>C = 0\<close> by simp
  qed
qed

lemma centLine_swap: "centLine debit credit \<Longrightarrow> centLine credit debit"
  by (auto simp: centLine_def)

lemma near_add:
  assumes "near x X" and "near y Y"
  shows "isDouble (addNumber x y)"
    and "\<bar>valof (addNumber x y) - of_int (X + Y) / 100\<bar> < 1 / 200"
proof -
  note nx = nearD[OF assms(1)] and ny = nearD[OF assms(2)]
  define s where "s = valof x + valof y"
  have s1: "\<bar>s\<bar> < 20000000000001" unfolding s_def using nx(3,4) ny(3,4) by linarith
  have "\<bar>s\<bar> < 2 ^ 1023"
  proof -
    have "(20000000000001::real) < 2 ^ 1023" by simp
    then show ?thesis using s1 by linarith
  qed
  then have sm: "\<bar>valof x + valof y\<bar> < 2 ^ 1023" by (simp add: s_def)
  show "isDouble (addNumber x y)" by (rule add_error(1)[OF nx(1) ny(1) sm])
  have "\<bar>valof (addNumber x y) - s\<bar> \<le> \<bar>s\<bar> / 2 ^ 53 + 1 / 2 ^ 1075"
    using add_error(2)[OF nx(1) ny(1) sm] by (simp add: s_def)
  also have "\<dots> \<le> 20000000000001 / 2 ^ 53 + 1 / 10 ^ 20"
    using s1 tiny by (intro add_mono divide_right_mono) simp_all
  also have "\<dots> \<le> 222045 / 100000000" by simp
  finally have e: "\<bar>valof (addNumber x y) - s\<bar> \<le> 222045 / 100000000" .
  have "s - of_int (X + Y) / 100 = (valof x - of_int X / 100) + (valof y - of_int Y / 100)"
    by (simp add: s_def add_divide_distrib)
  then have t: "\<bar>s - of_int (X + Y) / 100\<bar> \<le> 222046 / 100000000"
    using nx(3) ny(3) by linarith
  show "\<bar>valof (addNumber x y) - of_int (X + Y) / 100\<bar> < 1 / 200"
    using e t by linarith
qed

lemma toFixed_add_near:
  assumes "near x X" and "near y Y"
  shows "toFixed 2 (addNumber x y) = Fixed (Dec (X + Y) 2)"
proof -
  have "\<bar>X\<bar> < 1000000000000000" "\<bar>Y\<bar> < 1000000000000000"
    using nearD(2)[OF assms(1)] nearD(2)[OF assms(2)] by simp_all
  then have "\<bar>X + Y\<bar> < 2000000000000000" by linarith
  then have "\<bar>X + Y\<bar> < 10 ^ 22" by simp
  then show ?thesis using near_add[OF assms] by (intro toFixed_near) simp_all
qed

lemma toFixed_sub_near:
  assumes "near x X" and "near y Y"
  shows "toFixed 2 (subNumber x y) = Fixed (Dec (X - Y) 2)"
  using toFixed_add_near[OF assms(1) near_neg[OF assms(2)]] by (simp add: subNumber_def)

lemma parseFloat_sign:
  assumes "centsOf x = Some X" and "\<bar>X\<bar> < 10 ^ 15"
  shows "lessNumber (parseFloat x) (Finite 0 0) \<longleftrightarrow> X < 0"
    and "lessNumber (Finite 0 0) (parseFloat x) \<longleftrightarrow> 0 < X"
    and "strictEquals (parseFloat x) (Finite 0 0) \<longleftrightarrow> X = 0"
proof -
  have n: "near (parseFloat x) X" by (rule parseFloat_near[OF assms])
  have d: "isDouble (parseFloat x)" by (rule nearD(1)[OF n])
  have e: "\<bar>valof (parseFloat x) - of_int X / 100\<bar> \<le> 111023 / 100000000"
    by (rule nearD(3)[OF n])
  have z: "X = 0 \<Longrightarrow> valof (parseFloat x) = 0"
    using assms(1) by (simp add: parseFloat_zero_cents valof_zero)
  have p: "0 < X \<Longrightarrow> 0 < valof (parseFloat x)"
  proof -
    assume "0 < X"
    then have "1 \<le> real_of_int X" by linarith
    then show ?thesis using e by linarith
  qed
  have m: "X < 0 \<Longrightarrow> valof (parseFloat x) < 0"
  proof -
    assume "X < 0"
    then have "real_of_int X \<le> - 1" by linarith
    then show ?thesis using e by linarith
  qed
  have c: "X < 0 \<or> X = 0 \<or> 0 < X" by linarith
  show "lessNumber (parseFloat x) (Finite 0 0) \<longleftrightarrow> X < 0"
    unfolding less_valof[OF d zero_isDouble] valof_zero using z p m c by fastforce
  show "lessNumber (Finite 0 0) (parseFloat x) \<longleftrightarrow> 0 < X"
    unfolding less_valof[OF zero_isDouble d] valof_zero using z p m c by fastforce
  show "strictEquals (parseFloat x) (Finite 0 0) \<longleftrightarrow> X = 0"
    unfolding strictEq_valof[OF d zero_isDouble] valof_zero using z p m c by fastforce
qed

section \<open>Account lookup\<close>

lemma getAccount_SomeD: "getAccount accs aid = Some a \<Longrightarrow> a \<in> set accs \<and> acc_id a = aid"
  unfolding getAccount_def by (induction accs) (auto split: if_splits)


lemma getAccount_map_same_id:
  assumes "\<And>a. acc_id (f a) = acc_id a"
  shows "getAccount (map (\<lambda>a. if acc_id a = aid then f a else a) accs) aid
           = map_option f (getAccount accs aid)"
  unfolding getAccount_def using assms by (induction accs) auto

lemma getAccount_map_other:
  assumes "\<And>a. acc_id (f a) = acc_id a" and "aid' \<noteq> aid"
  shows "getAccount (map (\<lambda>a. if acc_id a = aid then f a else a) accs) aid' = getAccount accs aid'"
  unfolding getAccount_def using assms by (induction accs) auto

lemma getAccount_unique:
  assumes "distinct (map acc_id accs)" and "getAccount accs aid = Some account"
    and "a \<in> set accs" and "acc_id a = aid"
  shows "a = account"
proof -
  have "account \<in> set accs" "acc_id account = aid"
    using getAccount_SomeD[OF assms(2)] by simp_all
  then show ?thesis
    using assms(1,3,4) by (metis distinct_map inj_onD)
qed

section \<open>Direct writes of the balance\<close>





section \<open>Updating an entry that does not exist\<close>

lemma getJournalEntry_None_iff:
  "getJournalEntry es eid = None \<longleftrightarrow> (\<forall>e\<in>set es. je_id e \<noteq> eid)"
  unfolding getJournalEntry_def by (auto simp add: find_None_iff)

lemma getJournalEntry_SomeD:
  "getJournalEntry es eid = Some e \<Longrightarrow> e \<in> set es \<and> je_id e = eid"
  unfolding getJournalEntry_def by (induction es) (auto split: if_splits)

text \<open>
  Claim C8, as amended. When no journal entry has the given id, the storage layer's update
  fails with NotFound, so its transaction writes nothing, and the update handler leaves
  every table as it was. The handler's response is NotFound for a body that passes the
  request schema; a body that the schema refuses, with fewer than two lines, gets the
  schema's error, since the schema is applied before the entry is looked up.
\<close>

theorem update_of_missing_entry_not_found:
  assumes "\<forall>e\<in>set (journalEntries d). je_id e \<noteq> eid"
  shows "updateJournalEntry d eid entryUpdates lines = Inl NotFound
       \<and> snd (put_journal_entries d eid entry lines) = d
       \<and> (2 \<le> length lines \<longrightarrow> put_journal_entries d eid entry lines = (Inl NotFound, d))
       \<and> (length lines < 2 \<longrightarrow> put_journal_entries d eid entry lines = (Inl TooFewLines, d))"
proof -
  have n: "getJournalEntry (journalEntries d) eid = None"
    using assms by (simp add: getJournalEntry_None_iff)
  then show ?thesis
    by (simp add: updateJournalEntry_def put_journal_entries_def)
qed

theorem update_of_missing_entry_not_found_witness:
  "list_all (\<lambda>e. je_id e \<noteq> ''e9'') (journalEntries db0)
   \<and> updateJournalEntry db0 ''e9'' entryPatch1
        [debitLine ''a1'' (Dec 500 2), creditLine ''a3'' (Dec 500 2)] = Inl NotFound
   \<and> 2 \<le> length [debitLine ''a1'' (Dec 500 2), creditLine ''a3'' (Dec 500 2)]
   \<and> put_journal_entries db0 ''e9'' update1 [debitLine ''a1'' (Dec 500 2), creditLine ''a3'' (Dec 500 2)]
       = (Inl NotFound, db0)
   \<and> length [debitLine ''a1'' (Dec 500 2)] < 2
   \<and> put_journal_entries db0 ''e9'' update1 [debitLine ''a1'' (Dec 500 2)] = (Inl TooFewLines, db0)"
proof -
  have h: "\<forall>e\<in>set (journalEntries db0). je_id e \<noteq> ''e9''" by (simp add: db0_def)
  show ?thesis
    using h update_of_missing_entry_not_found[OF h,
        where lines = "[debitLine ''a1'' (Dec 500 2), creditLine ''a3'' (Dec 500 2)]"
          and entry = update1 and entryUpdates = entryPatch1]
      update_of_missing_entry_not_found[OF h,
        where lines = "[debitLine ''a1'' (Dec 500 2)]" and entry = update1
          and entryUpdates = entryPatch1]
    by (simp add: list_all_iff)
qed

text \<open>
  Claim C8 as stated fails for the handler: an update of an id that no entry has, with a
  body of one line, is answered with the schema's error and not with NotFound.
\<close>

theorem update_of_missing_entry_schema_error:
  "getJournalEntry (journalEntries db0) ''e9'' = None
   \<and> put_journal_entries db0 ''e9'' update1 [debitLine ''a1'' (Dec 500 2)] = (Inl TooFewLines, db0)
   \<and> fst (put_journal_entries db0 ''e9'' update1 [debitLine ''a1'' (Dec 500 2)]) \<noteq> Inl NotFound"
  by (simp add: put_journal_entries_def getJournalEntry_def db0_def)

section \<open>Validation in the request handlers\<close>

lemma checkLines_None_iff:
  "checkLines lines = None \<longleftrightarrow>
     (\<forall>l\<in>set lines. \<not> negativeAmount l \<and> \<not> ambiguousLine l \<and> \<not> emptyLine l)"
  by (induction lines) (simp_all add: Let_def negativeAmount_def ambiguousLine_def emptyLine_def)






lemma put_journal_entries_unchanged:
  "fst (put_journal_entries d eid entry lines) = Inl e \<Longrightarrow>
     snd (put_journal_entries d eid entry lines) = d"
  unfolding put_journal_entries_def
  by (auto simp: Let_def split: option.splits if_splits sum.splits prod.splits)

lemma post_journal_entries_accepted:
  "post_journal_entries d newId entry lines = (Inr je, d') \<Longrightarrow>
     2 \<le> length lines \<and> validateLines (accounts d) (er_companyId entry) lines = None
     \<and> createJournalEntry d newId
          \<lparr>ie_companyId = er_companyId entry,
           ie_entryNumber = er_entryNumber entry,
           ie_date = er_date entry,
           ie_description = er_description entry,
           ie_reference = er_reference entry,
           ie_totalAmount = toFixed 2 (totalDebits lines),
           ie_createdBy = ''system_user_id_1''\<rparr> lines = Inr (je, d')"
  unfolding post_journal_entries_def
  by (auto simp: Let_def split: option.splits if_splits sum.splits prod.splits)

lemma put_journal_entries_accepted:
  assumes "put_journal_entries d eid entry lines = (Inr je, d')"
  shows "2 \<le> length lines
     \<and> (\<exists>existingEntry. getJournalEntry (journalEntries d) eid = Some existingEntry
          \<and> validateLines (accounts d) (je_companyId existingEntry) lines = None
          \<and> updateJournalEntry d eid
               \<lparr>pe_companyId = None,
                pe_entryNumber = eu_entryNumber entry,
                pe_date = eu_date entry,
                pe_description = eu_description entry,
                pe_reference = eu_reference entry,
                pe_totalAmount = Some (toFixed 2 (totalDebits lines)),
                pe_createdBy = None\<rparr> lines = Inr (je, d'))"
  using assms unfolding put_journal_entries_def
  by (auto simp: Let_def split: option.splits if_splits sum.splits prod.splits)


lemma accountOfCompany_filter:
  "accountOfCompany accs companyId l \<longleftrightarrow>
     ln_accountId l \<in> set (map acc_id (filter (\<lambda>a. acc_companyId a = companyId) accs))"
  by (simp add: accountOfCompany_def)


lemma checkLines_first_violation:
  assumes "\<forall>p\<in>set pre. \<not> negativeAmount p \<and> \<not> ambiguousLine p \<and> \<not> emptyLine p"
  shows "checkLines (pre @ l # rest) =
     (if negativeAmount l then Some NegativeAmount
      else if ambiguousLine l then Some AmbiguousLine
      else if emptyLine l then Some EmptyLine
      else checkLines rest)"
  using assms
proof (induction pre)
  case Nil
  show ?case
    by (simp add: Let_def negativeAmount_def ambiguousLine_def emptyLine_def)
next
  case (Cons a pre)
  from Cons.prems have "\<not> negativeAmount a \<and> \<not> ambiguousLine a \<and> \<not> emptyLine a"
    by simp
  then have "checkLines ((a # pre) @ l # rest) = checkLines (pre @ l # rest)"
    by (auto simp add: Let_def negativeAmount_def ambiguousLine_def emptyLine_def)
  moreover from Cons.prems
  have "\<forall>p\<in>set pre. \<not> negativeAmount p \<and> \<not> ambiguousLine p \<and> \<not> emptyLine p"
    by simp
  ultimately show ?case using Cons.IH by simp
qed

lemma checkAccounts_first_violation:
  assumes "\<forall>p\<in>set pre. accountOfCompany accs companyId p"
    and "\<not> accountOfCompany accs companyId l"
  shows "checkAccounts accs companyId (pre @ l # rest) = Some (AccountNotInCompany (ln_accountId l))"
proof -
  have "find (\<lambda>accountId. accountId \<notin> acc_id ` {a \<in> set accs. acc_companyId a = companyId})
          (map ln_accountId (pre @ l # rest)) = Some (ln_accountId l)"
    using assms unfolding accountOfCompany_def by (induction pre) simp_all
  then show ?thesis
    unfolding checkAccounts_def getAccountsByCompany_def by (simp add: Let_def)
qed

section \<open>The order of the checks\<close>

text \<open>
  Claim C9, as amended. The create handler first refuses a candidate with fewer than two
  lines. It then walks the lines in the order submitted and stops at the first line that
  breaks one of the rules 2 to 4, reporting for that line the earliest rule it breaks
  (negative before ambiguous before empty); so a rule broken by a later line never wins
  over a rule broken by an earlier line. Only when every line passes are the totals
  compared, by the handler's test on the sums of the parsed amounts, and only when that
  test passes are the account ids checked, in the order submitted.
\<close>

theorem validation_order:
  "(length lines < 2 \<longrightarrow> fst (post_journal_entries d newId entry lines) = Inl TooFewLines)
   \<and> (2 \<le> length lines \<and> lines = pre @ l # rest
        \<and> (\<forall>p\<in>set pre. \<not> negativeAmount p \<and> \<not> ambiguousLine p \<and> \<not> emptyLine p) \<longrightarrow>
        (negativeAmount l \<longrightarrow> fst (post_journal_entries d newId entry lines) = Inl NegativeAmount)
      \<and> (\<not> negativeAmount l \<and> ambiguousLine l \<longrightarrow>
           fst (post_journal_entries d newId entry lines) = Inl AmbiguousLine)
      \<and> (\<not> negativeAmount l \<and> \<not> ambiguousLine l \<and> emptyLine l \<longrightarrow>
           fst (post_journal_entries d newId entry lines) = Inl EmptyLine))
   \<and> (2 \<le> length lines
        \<and> (\<forall>p\<in>set lines. \<not> negativeAmount p \<and> \<not> ambiguousLine p \<and> \<not> emptyLine p)
        \<and> unbalanced lines \<longrightarrow>
        fst (post_journal_entries d newId entry lines) =
          Inl (Unbalanced (toFixed 2 (totalDebits lines)) (toFixed 2 (totalCredits lines))))
   \<and> (2 \<le> length lines
        \<and> (\<forall>p\<in>set lines. \<not> negativeAmount p \<and> \<not> ambiguousLine p \<and> \<not> emptyLine p)
        \<and> \<not> unbalanced lines
        \<and> lines = pre @ l # rest
        \<and> (\<forall>p\<in>set pre. accountOfCompany (accounts d) (er_companyId entry) p)
        \<and> \<not> accountOfCompany (accounts d) (er_companyId entry) l \<longrightarrow>
        fst (post_journal_entries d newId entry lines) = Inl (AccountNotInCompany (ln_accountId l)))"
proof -
  have 1: "length lines < 2 \<longrightarrow> fst (post_journal_entries d newId entry lines) = Inl TooFewLines"
    by (simp add: post_journal_entries_def)
  have 2: "2 \<le> length lines \<and> lines = pre @ l # rest
        \<and> (\<forall>p\<in>set pre. \<not> negativeAmount p \<and> \<not> ambiguousLine p \<and> \<not> emptyLine p) \<longrightarrow>
        (negativeAmount l \<longrightarrow> fst (post_journal_entries d newId entry lines) = Inl NegativeAmount)
      \<and> (\<not> negativeAmount l \<and> ambiguousLine l \<longrightarrow>
           fst (post_journal_entries d newId entry lines) = Inl AmbiguousLine)
      \<and> (\<not> negativeAmount l \<and> \<not> ambiguousLine l \<and> emptyLine l \<longrightarrow>
           fst (post_journal_entries d newId entry lines) = Inl EmptyLine)"
  proof (intro impI)
    assume h: "2 \<le> length lines \<and> lines = pre @ l # rest
        \<and> (\<forall>p\<in>set pre. \<not> negativeAmount p \<and> \<not> ambiguousLine p \<and> \<not> emptyLine p)"
    then have c: "checkLines lines =
     (if negativeAmount l then Some NegativeAmount
      else if ambiguousLine l then Some AmbiguousLine
      else if emptyLine l then Some EmptyLine
      else checkLines rest)"
      using checkLines_first_violation by blast
    from h have "2 \<le> length lines" by blast
    then have n: "\<not> length lines < 2" by simp
    show "(negativeAmount l \<longrightarrow> fst (post_journal_entries d newId entry lines) = Inl NegativeAmount)
      \<and> (\<not> negativeAmount l \<and> ambiguousLine l \<longrightarrow>
           fst (post_journal_entries d newId entry lines) = Inl AmbiguousLine)
      \<and> (\<not> negativeAmount l \<and> \<not> ambiguousLine l \<and> emptyLine l \<longrightarrow>
           fst (post_journal_entries d newId entry lines) = Inl EmptyLine)"
      using n c by (simp add: post_journal_entries_def validateLines_def)
  qed
  have 3: "2 \<le> length lines
        \<and> (\<forall>p\<in>set lines. \<not> negativeAmount p \<and> \<not> ambiguousLine p \<and> \<not> emptyLine p)
        \<and> unbalanced lines \<longrightarrow>
        fst (post_journal_entries d newId entry lines) =
          Inl (Unbalanced (toFixed 2 (totalDebits lines)) (toFixed 2 (totalCredits lines)))"
  proof
    assume h: "2 \<le> length lines
        \<and> (\<forall>p\<in>set lines. \<not> negativeAmount p \<and> \<not> ambiguousLine p \<and> \<not> emptyLine p)
        \<and> unbalanced lines"
    then have "\<forall>p\<in>set lines. \<not> negativeAmount p \<and> \<not> ambiguousLine p \<and> \<not> emptyLine p"
      by blast
    then have c: "checkLines lines = None" by (simp add: checkLines_None_iff)
    from h have "2 \<le> length lines" by blast
    then have n: "\<not> length lines < 2" by simp
    from h have u: "unbalanced lines" by blast
    show "fst (post_journal_entries d newId entry lines) =
          Inl (Unbalanced (toFixed 2 (totalDebits lines)) (toFixed 2 (totalCredits lines)))"
      using n c u by (simp add: post_journal_entries_def validateLines_def unbalanced_def)
  qed
  have 4: "2 \<le> length lines
        \<and> (\<forall>p\<in>set lines. \<not> negativeAmount p \<and> \<not> ambiguousLine p \<and> \<not> emptyLine p)
        \<and> \<not> unbalanced lines
        \<and> lines = pre @ l # rest
        \<and> (\<forall>p\<in>set pre. accountOfCompany (accounts d) (er_companyId entry) p)
        \<and> \<not> accountOfCompany (accounts d) (er_companyId entry) l \<longrightarrow>
        fst (post_journal_entries d newId entry lines) = Inl (AccountNotInCompany (ln_accountId l))"
  proof
    assume h: "2 \<le> length lines
        \<and> (\<forall>p\<in>set lines. \<not> negativeAmount p \<and> \<not> ambiguousLine p \<and> \<not> emptyLine p)
        \<and> \<not> unbalanced lines
        \<and> lines = pre @ l # rest
        \<and> (\<forall>p\<in>set pre. accountOfCompany (accounts d) (er_companyId entry) p)
        \<and> \<not> accountOfCompany (accounts d) (er_companyId entry) l"
    then have "\<forall>p\<in>set lines. \<not> negativeAmount p \<and> \<not> ambiguousLine p \<and> \<not> emptyLine p"
      by blast
    then have c: "checkLines lines = None" by (simp add: checkLines_None_iff)
    from h have "2 \<le> length lines" by blast
    then have n: "\<not> length lines < 2" by simp
    from h have b: "\<not> unbalanced lines" by blast
    have a: "checkAccounts (accounts d) (er_companyId entry) lines
               = Some (AccountNotInCompany (ln_accountId l))"
      using h checkAccounts_first_violation by blast
    show "fst (post_journal_entries d newId entry lines) = Inl (AccountNotInCompany (ln_accountId l))"
      using n c b a by (simp add: post_journal_entries_def validateLines_def unbalanced_def)
  qed
  show ?thesis using 1 2 3 4 by blast
qed

theorem validation_order_witness:
  "length [debitLine ''a1'' (Dec 500 2)] < 2
   \<and> fst (post_journal_entries db0 ''e1'' request1 [debitLine ''a1'' (Dec 500 2)]) = Inl TooFewLines
   \<and> \<not> negativeAmount (bothLine ''a1'' (Dec 500 2) (Dec 500 2))
   \<and> ambiguousLine (bothLine ''a1'' (Dec 500 2) (Dec 500 2))
   \<and> negativeAmount (debitLine ''a2'' (Dec (- 100) 2))
   \<and> fst (post_journal_entries db0 ''e1'' request1
        [bothLine ''a1'' (Dec 500 2) (Dec 500 2), debitLine ''a2'' (Dec (- 100) 2)])
       = Inl AmbiguousLine
   \<and> fst (post_journal_entries db0 ''e1'' request1
        [debitLine ''a2'' (Dec (- 100) 2), bothLine ''a1'' (Dec 500 2) (Dec 500 2)])
       = Inl NegativeAmount
   \<and> emptyLine (debitLine ''a3'' (Dec 0 2))
   \<and> fst (post_journal_entries db0 ''e1'' request1 [debitLine ''a1'' (Dec 500 2), debitLine ''a3'' (Dec 0 2)])
       = Inl EmptyLine
   \<and> unbalanced [debitLine ''a1'' (Dec 101 2), creditLine ''b1'' (Dec 100 2)]
   \<and> \<not> accountOfCompany (accounts db0) ''c1'' (creditLine ''b1'' (Dec 100 2))
   \<and> fst (post_journal_entries db0 ''e1'' request1 [debitLine ''a1'' (Dec 101 2), creditLine ''b1'' (Dec 100 2)])
       = Inl (Unbalanced (Fixed (Dec 101 2)) (Fixed (Dec 100 2)))
   \<and> \<not> unbalanced [debitLine ''a1'' (Dec 500 2), creditLine ''b1'' (Dec 500 2)]
   \<and> accountOfCompany (accounts db0) ''c1'' (debitLine ''a1'' (Dec 500 2))
   \<and> \<not> accountOfCompany (accounts db0) ''c1'' (creditLine ''b1'' (Dec 500 2))
   \<and> fst (post_journal_entries db0 ''e1'' request1 [debitLine ''a1'' (Dec 500 2), creditLine ''b1'' (Dec 500 2)])
       = Inl (AccountNotInCompany ''b1'')"
proof -
  let ?amb = "bothLine ''a1'' (Dec 500 2) (Dec 500 2)" and ?neg = "debitLine ''a2'' (Dec (- 100) 2)"
  let ?ok = "debitLine ''a1'' (Dec 500 2)" and ?zero = "debitLine ''a3'' (Dec 0 2)"
  let ?d101 = "debitLine ''a1'' (Dec 101 2)" and ?c100 = "creditLine ''b1'' (Dec 100 2)"
  let ?foreign = "creditLine ''b1'' (Dec 500 2)"
  have k: "\<not> negativeAmount ?amb \<and> ambiguousLine ?amb \<and> negativeAmount ?neg
      \<and> \<not> negativeAmount ?zero \<and> \<not> ambiguousLine ?zero \<and> emptyLine ?zero
      \<and> \<not> negativeAmount ?ok \<and> \<not> ambiguousLine ?ok \<and> \<not> emptyLine ?ok
      \<and> \<not> negativeAmount ?d101 \<and> \<not> ambiguousLine ?d101 \<and> \<not> emptyLine ?d101
      \<and> \<not> negativeAmount ?c100 \<and> \<not> ambiguousLine ?c100 \<and> \<not> emptyLine ?c100
      \<and> \<not> negativeAmount ?foreign \<and> \<not> ambiguousLine ?foreign \<and> \<not> emptyLine ?foreign"
    by code_simp
  have c: "er_companyId request1 = ''c1''" by (simp add: request1_def)
  have o: "accountOfCompany (accounts db0) ''c1'' ?ok
      \<and> \<not> accountOfCompany (accounts db0) ''c1'' ?foreign
      \<and> \<not> accountOfCompany (accounts db0) ''c1'' ?c100"
    by (simp add: accountOfCompany_filter db0_def debitLine_def creditLine_def
        cash_def loan_def sales_def foreignCash_def)
  have u: "unbalanced [?d101, ?c100]"
    "toFixed 2 (totalDebits [?d101, ?c100]) = Fixed (Dec 101 2)"
    "toFixed 2 (totalCredits [?d101, ?c100]) = Fixed (Dec 100 2)"
    "\<not> unbalanced [?ok, ?foreign]"
    by code_simp+
  have 1: "fst (post_journal_entries db0 ''e1'' request1 [?ok]) = Inl TooFewLines"
    using validation_order[where lines = "[?ok]" and d = db0 and newId = "''e1''"
        and entry = request1]
    by simp
  have 2: "fst (post_journal_entries db0 ''e1'' request1 [?amb, ?neg]) = Inl AmbiguousLine"
    using k validation_order[where lines = "[?amb, ?neg]" and d = db0 and newId = "''e1''"
        and entry = request1 and pre = "[]" and l = ?amb and rest = "[?neg]"]
    by simp
  have 3: "fst (post_journal_entries db0 ''e1'' request1 [?neg, ?amb]) = Inl NegativeAmount"
    using k validation_order[where lines = "[?neg, ?amb]" and d = db0 and newId = "''e1''"
        and entry = request1 and pre = "[]" and l = ?neg and rest = "[?amb]"]
    by simp
  have 4: "fst (post_journal_entries db0 ''e1'' request1 [?ok, ?zero]) = Inl EmptyLine"
    using k validation_order[where lines = "[?ok, ?zero]" and d = db0 and newId = "''e1''"
        and entry = request1 and pre = "[?ok]" and l = ?zero and rest = "[]"]
    by simp
  have 5: "fst (post_journal_entries db0 ''e1'' request1 [?d101, ?c100])
      = Inl (Unbalanced (Fixed (Dec 101 2)) (Fixed (Dec 100 2)))"
    using k u validation_order[where lines = "[?d101, ?c100]" and d = db0 and newId = "''e1''"
        and entry = request1]
    by simp
  have 6: "fst (post_journal_entries db0 ''e1'' request1 [?ok, ?foreign])
      = Inl (AccountNotInCompany ''b1'')"
  proof -
    have "fst (post_journal_entries db0 ''e1'' request1 [?ok, ?foreign])
        = Inl (AccountNotInCompany (ln_accountId ?foreign))"
      using k u o c validation_order[where lines = "[?ok, ?foreign]" and d = db0
          and newId = "''e1''" and entry = request1 and pre = "[?ok]" and l = ?foreign
          and rest = "[]"]
      by simp
    then show ?thesis by (simp add: creditLine_def)
  qed
  show ?thesis using k o u(1) u(4) 1 2 3 4 5 6 by simp
qed

text \<open>
  Claim C9 as stated fails: a candidate whose first line is ambiguous and whose second
  line has a negative amount breaks rule 2 and rule 3, and the handler reports the
  ambiguous line, not the negative amount.
\<close>

theorem first_violation_counterexample:
  "negativeAmount (debitLine ''a2'' (Dec (- 100) 2))
   \<and> fst (post_journal_entries db0 ''e1'' request1
        [bothLine ''a1'' (Dec 500 2) (Dec 500 2), debitLine ''a2'' (Dec (- 100) 2)])
       = Inl AmbiguousLine
   \<and> fst (post_journal_entries db0 ''e1'' request1
        [bothLine ''a1'' (Dec 500 2) (Dec 500 2), debitLine ''a2'' (Dec (- 100) 2)])
       \<noteq> Inl NegativeAmount"
  by code_simp

section \<open>Lines whose account is not found\<close>

lemma map_acc_id_update:
  "map acc_id (map (\<lambda>a. if acc_id a = aid then a\<lparr>acc_balance := v\<rparr> else a) accs) = map acc_id accs"
  by (induction accs) auto

lemma setBalance_ids: "setBalance accs aid b = Inr accs' \<Longrightarrow> map acc_id accs' = map acc_id accs"
  unfolding setBalance_def by (auto split: sum.splits simp: map_acc_id_update)

lemma forwardDelta_ids:
  "forwardDelta accs aid x y = Inr accs' \<Longrightarrow> map acc_id accs' = map acc_id accs"
  unfolding forwardDelta_def by (auto simp: Let_def setBalance_ids split: option.splits)


lemma applyLines_ids: "applyLines accs lines = Inr accs' \<Longrightarrow> map acc_id accs' = map acc_id accs"
proof (induction lines arbitrary: accs)
  case Nil
  then show ?case by simp
next
  case (Cons l lines)
  then show ?case by (auto split: sum.splits dest: forwardDelta_ids)
qed


lemma withEntryId_fields:
  assumes "withEntryId eid line = Inr row"
  shows "jl_journalEntryId row = eid" and "jl_accountId row = ln_accountId line"
    and "storeDecimal 15 2 (ln_debitAmount line) = Inr (jl_debitAmount row)"
    and "storeDecimal 15 2 (ln_creditAmount line) = Inr (jl_creditAmount row)"
  using assms unfolding withEntryId_def by (auto split: sum.splits)

lemma linesWithEntryId_rows:
  "linesWithEntryId eid lines = Inr rows \<Longrightarrow>
     length rows = length lines
     \<and> (\<forall>i<length lines. withEntryId eid (lines ! i) = Inr (rows ! i))"
proof (induction lines arbitrary: rows)
  case Nil
  then show ?case by simp
next
  case (Cons l lines)
  from Cons.prems obtain row rows' where
    r: "withEntryId eid l = Inr row" "linesWithEntryId eid lines = Inr rows'" "rows = row # rows'"
    by (auto split: sum.splits)
  show ?case using Cons.IH[OF r(2)] r(1,3) by (auto simp: nth_Cons split: nat.splits)
qed


lemma linesWithEntryId_ids:
  "linesWithEntryId eid lines = Inr rows \<Longrightarrow> \<forall>r\<in>set rows. jl_journalEntryId r = eid"
proof (induction lines arbitrary: rows)
  case Nil
  then show ?case by simp
next
  case (Cons l lines)
  then show ?case by (auto split: sum.splits simp: withEntryId_fields)
qed








section \<open>Writes to the money columns\<close>

lemma roundHalfAway_exact:
  assumes "0 < d"
  shows "roundHalfAway (k * d) d = k"
proof -
  have s: "sgn (k * d) = sgn k" using assms by (simp add: sgn_mult)
  have e: "2 * \<bar>k * d\<bar> + d = d + \<bar>k\<bar> * (2 * d)" using assms by (simp add: abs_mult)
  have "(d + \<bar>k\<bar> * (2 * d)) div (2 * d) = \<bar>k\<bar> + d div (2 * d)"
    using assms by (intro div_mult_self1) simp
  also have "d div (2 * d) = 0" using assms by (intro div_pos_pos_trivial) simp_all
  finally have "(2 * \<bar>k * d\<bar> + d) div (2 * d) = \<bar>k\<bar>" unfolding e by simp
  then show ?thesis unfolding roundHalfAway_def s by (simp add: sgn_mult_abs)
qed

lemma decimalColumn_cents: "centsOf x = Some X \<Longrightarrow> decimalColumn 2 x = Dec X 2"
proof -
  assume "centsOf x = Some X"
  then obtain c s where x: "x = Dec c s" and cs: "c * 100 = X * 10 ^ s"
    by (rule centsOf_SomeD)
  have "roundHalfAway (c * 10 ^ 2) (10 ^ s) = X"
    using roundHalfAway_exact[of "10 ^ s" X] cs by simp
  then show ?thesis by (simp add: decimalColumn_def x)
qed

lemma storeDecimal_cents:
  "centsOf x = Some X \<Longrightarrow>
     storeDecimal 15 2 x = (if \<bar>X\<bar> < 10 ^ 15 then Inr (Dec X 2) else Inl NumericOverflow)"
  by (simp add: storeDecimal_def decimalColumn_cents)

lemma storeFixed_cents:
  "storeFixed 15 2 (Fixed (Dec b 2)) = (if \<bar>b\<bar> < 10 ^ 15 then Inr (Dec b 2) else Inl NumericOverflow)"
  using storeDecimal_cents[of "Dec b 2" b] by (simp add: storeFixed_def)

lemma storeDecimal_money: "storeDecimal 15 2 x = Inr v \<Longrightarrow> v = DNaN \<or> money v"
  unfolding storeDecimal_def decimalColumn_def money_def
  by (auto split: decimal.splits if_splits)

lemma storeFixed_money: "storeFixed 15 2 t = Inr v \<Longrightarrow> v = DNaN \<or> money v"
  unfolding storeFixed_def by (auto split: fixed.splits dest: storeDecimal_money)

lemma setBalance_cents:
  "setBalance accs aid (Fixed (Dec b 2)) =
     (if \<bar>b\<bar> < 10 ^ 15
      then Inr (map (\<lambda>a. if acc_id a = aid then a\<lparr>acc_balance := Dec b 2\<rparr> else a) accs)
      else Inl NumericOverflow)"
  by (simp add: setBalance_def storeFixed_cents)

section \<open>The directional rule\<close>

lemma money_near: "money b \<Longrightarrow> near (parseFloat b) (cents b)"
  using money_cents[of b] money_centsOf[of b] by (simp add: parseFloat_near)

lemma forwardDelta_step:
  assumes "getAccount accs aid = Some a" and "money (acc_balance a)" and "centLine debit credit"
  shows "forwardDelta accs aid debit credit =
     (let b = cents (acc_balance a) + direction (acc_type a) * (cents debit - cents credit)
      in if \<bar>b\<bar> < 10 ^ 15
         then Inr (map (\<lambda>x. if acc_id x = aid then x\<lparr>acc_balance := Dec b 2\<rparr> else x) accs)
         else Inl NumericOverflow)"
proof -
  have id: "acc_id a = aid" using getAccount_SomeD[OF assms(1)] by simp
  have nb: "near (parseFloat (acc_balance a)) (cents (acc_balance a))"
    by (rule money_near[OF assms(2)])
  have f: "toFixed 2 (addNumber (parseFloat (acc_balance a))
             (subNumber (parseFloat debit) (parseFloat credit)))
        = Fixed (Dec (cents (acc_balance a) + (cents debit - cents credit)) 2)"
    by (rule toFixed_add_near[OF nb centLine_near[OF assms(3)]])
  have g: "toFixed 2 (addNumber (parseFloat (acc_balance a))
             (subNumber (parseFloat credit) (parseFloat debit)))
        = Fixed (Dec (cents (acc_balance a) + (cents credit - cents debit)) 2)"
    by (rule toFixed_add_near[OF nb centLine_near[OF centLine_swap[OF assms(3)]]])
  show ?thesis
  proof (cases "acc_type a \<in> {ASSET, EXPENSE}")
    case True
    then show ?thesis
      unfolding forwardDelta_def by (simp add: assms(1) Let_def f id setBalance_cents direction_def)
  next
    case False
    have "cents (acc_balance a) + (cents credit - cents debit)
        = cents (acc_balance a) - (cents debit - cents credit)" by simp
    then show ?thesis
      using False unfolding forwardDelta_def
      by (simp add: assms(1) Let_def g id setBalance_cents direction_def)
  qed
qed

lemma reverseDelta_step:
  assumes "getAccount accs aid = Some a" and "money (acc_balance a)" and "centLine debit credit"
  shows "reverseDelta accs aid debit credit =
     (let b = cents (acc_balance a) - direction (acc_type a) * (cents debit - cents credit)
      in if \<bar>b\<bar> < 10 ^ 15
         then Inr (map (\<lambda>x. if acc_id x = aid then x\<lparr>acc_balance := Dec b 2\<rparr> else x) accs)
         else Inl NumericOverflow)"
proof -
  have id: "acc_id a = aid" using getAccount_SomeD[OF assms(1)] by simp
  have nb: "near (parseFloat (acc_balance a)) (cents (acc_balance a))"
    by (rule money_near[OF assms(2)])
  have f: "toFixed 2 (subNumber (parseFloat (acc_balance a))
             (subNumber (parseFloat debit) (parseFloat credit)))
        = Fixed (Dec (cents (acc_balance a) - (cents debit - cents credit)) 2)"
    by (rule toFixed_sub_near[OF nb centLine_near[OF assms(3)]])
  have g: "toFixed 2 (subNumber (parseFloat (acc_balance a))
             (subNumber (parseFloat credit) (parseFloat debit)))
        = Fixed (Dec (cents (acc_balance a) - (cents credit - cents debit)) 2)"
    by (rule toFixed_sub_near[OF nb centLine_near[OF centLine_swap[OF assms(3)]]])
  show ?thesis
  proof (cases "acc_type a \<in> {ASSET, EXPENSE}")
    case True
    then show ?thesis
      unfolding reverseDelta_def by (simp add: assms(1) Let_def f id setBalance_cents direction_def)
  next
    case False
    have "cents (acc_balance a) - (cents credit - cents debit)
        = cents (acc_balance a) + (cents debit - cents credit)" by simp
    then show ?thesis
      using False unfolding reverseDelta_def
      by (simp add: assms(1) Let_def g id setBalance_cents direction_def)
  qed
qed

lemma typeName_debit_normal:
  "typeName t \<in> set [''ASSET'', ''EXPENSE''] \<longleftrightarrow> t = ASSET \<or> t = EXPENSE"
  by (cases t) (simp_all add: typeName_def)

lemma toFixed_near_add_zero:
  assumes "isDouble z" and "\<bar>valof z - of_int w / 100\<bar> < 1 / 200" and "\<bar>w\<bar> < 10 ^ 16"
  shows "toFixed 2 (subNumber z (Finite 0 0)) = Fixed (Dec w 2)"
proof -
  have "real_of_int \<bar>w\<bar> < real_of_int (10 ^ 16)" using assms(3) by (simp only: of_int_less_iff)
  then have "\<bar>real_of_int w / 100\<bar> < 100000000000000" by simp
  then have "\<bar>valof z\<bar> < 100000000000001" using assms(2) by linarith
  moreover have "(100000000000001::real) < 2 ^ 1023" by simp
  ultimately have s: "\<bar>valof z\<bar> < 2 ^ 1023" by linarith
  have v: "valof (addNumber z (Finite 0 0)) = valof z" and d: "isDouble (addNumber z (Finite 0 0))"
    using add_zero_right[OF assms(1) s] by simp_all
  have "\<bar>w\<bar> < 10 ^ 22" using assms(3) by simp
  then show ?thesis
    unfolding subNumber_def using assms(2) v d by (intro toFixed_near) simp_all
qed

lemma calculateAccountBalance_cents:
  assumes "money balance" and "centLine debit credit"
  shows "toFixed 2 (calculateAccountBalance (parseFloat balance) (typeName t)
             (parseFloat debit) (parseFloat credit))
       = Fixed (Dec (cents balance + direction t * (cents debit - cents credit)) 2)"
proof -
  obtain D C where D: "centsOf debit = Some D" and C: "centsOf credit = Some C"
    using assms(2) by (auto simp: centLine_def)
  have cD: "cents debit = D" and cC: "cents credit = C" using D C by (simp_all add: cents_Some)
  have r: "\<bar>D\<bar> < 10 ^ 15" "\<bar>C\<bar> < 10 ^ 15" and z: "D = 0 \<or> C = 0"
    using assms(2) cD cC by (simp_all add: centLine_def)
  have nb: "near (parseFloat balance) (cents balance)" by (rule money_near[OF assms(1)])
  have nd: "near (parseFloat debit) D" by (rule parseFloat_near[OF D r(1)])
  have nc: "near (parseFloat credit) C" by (rule parseFloat_near[OF C r(2)])
  have B: "\<bar>cents balance\<bar> < 1000000000000000" using money_cents[OF assms(1)] by simp
  have r': "\<bar>D\<bar> < 1000000000000000" "\<bar>C\<bar> < 1000000000000000" using r by simp_all
  have plus: "toFixed 2 (subNumber (addNumber (parseFloat balance) (parseFloat x)) (parseFloat y))
      = Fixed (Dec (cents balance + (X - Y)) 2)"
    if nx: "near (parseFloat x) X" and ny: "near (parseFloat y) Y"
      and zx: "X = 0 \<Longrightarrow> parseFloat x = Finite 0 0" and zy: "Y = 0 \<Longrightarrow> parseFloat y = Finite 0 0"
      and z: "X = 0 \<or> Y = 0" and rx: "\<bar>X\<bar> < 1000000000000000" for x y X Y
    using z
  proof
    assume "X = 0"
    then have "near (addNumber (parseFloat balance) (parseFloat x)) (cents balance)"
      using near_add_zero[OF nb] zx by simp
    then show ?thesis using toFixed_sub_near[OF _ ny] \<open>X = 0\<close> by simp
  next
    assume "Y = 0"
    have "\<bar>cents balance + X\<bar> < 2000000000000000" using B rx by linarith
    then have "\<bar>cents balance + X\<bar> < 10 ^ 16" by simp
    then have "toFixed 2 (subNumber (addNumber (parseFloat balance) (parseFloat x)) (Finite 0 0))
        = Fixed (Dec (cents balance + X) 2)"
      using near_add[OF nb nx] by (intro toFixed_near_add_zero) simp_all
    then show ?thesis using zy \<open>Y = 0\<close> by simp
  qed
  have zd: "D = 0 \<Longrightarrow> parseFloat debit = Finite 0 0" using D by (simp add: parseFloat_zero_cents)
  have zc: "C = 0 \<Longrightarrow> parseFloat credit = Finite 0 0" using C by (simp add: parseFloat_zero_cents)
  show ?thesis
  proof (cases "t = ASSET \<or> t = EXPENSE")
    case True
    then show ?thesis
      using plus[OF nd nc zd zc z r'(1)]
      by (auto simp: calculateAccountBalance_def typeName_debit_normal direction_def cD cC
          simp del: set_simps)
  next
    case False
    have z': "C = 0 \<or> D = 0" using z by blast
    have "cents balance + (C - D) = cents balance - (D - C)" by simp
    then show ?thesis
      using False plus[OF nc nd zc zd z' r'(2)]
      by (auto simp: calculateAccountBalance_def typeName_debit_normal direction_def cD cC
          simp del: set_simps)
  qed
qed

lemma decimalValue_Dec2: "decimalValue (Dec b 2) = of_int b / 100"
  by (simp add: decimalValue_def)

lemma centLine_values:
  assumes "centLine debit credit"
  shows "decimalValue debit = of_int (cents debit) / 100"
    and "decimalValue credit = of_int (cents credit) / 100"
proof -
  obtain D C where D: "centsOf debit = Some D" and C: "centsOf credit = Some C"
    using assms by (auto simp: centLine_def)
  show "decimalValue debit = of_int (cents debit) / 100"
    using decimalValue_cents[OF D] cents_Some[OF D] by simp
  show "decimalValue credit = of_int (cents credit) / 100"
    using decimalValue_cents[OF C] cents_Some[OF C] by simp
qed

lemma getAccount_update_balance:
  "getAccount (map (\<lambda>x. if acc_id x = aid then x\<lparr>acc_balance := v\<rparr> else x) accs) aid
     = map_option (\<lambda>x. x\<lparr>acc_balance := v\<rparr>) (getAccount accs aid)"
  by (rule getAccount_map_same_id) simp

text \<open>
  Claim C1, as amended. Posting a line to an account that exists, when the balance is a
  value of the money column, the line's amounts are whole cents in the range of the money
  columns and one of them is zero, leaves exactly balance + debit - credit as the stored
  balance when the account's type is ASSET or EXPENSE and balance + credit - debit when it
  is LIABILITY, EQUITY or REVENUE, provided the result is in the range of the column; if
  it is not, the write fails with a numeric overflow. The client's
  \<open>calculateAccountBalance\<close>, rounded to two decimals, gives the same amount. An ASSET
  account at 100.00 goes to 150.00 by a debit of 50.00 and to 70.00 by a credit of 30.00;
  a LIABILITY account at 100.00 goes to 150.00 by a credit of 50.00 and to 70.00 by a debit
  of 30.00.
\<close>

theorem directional_rule:
  assumes "getAccount accs aid = Some a"
  shows "(money (acc_balance a) \<and> centLine debit credit
          \<and> b = (if acc_type a = ASSET \<or> acc_type a = EXPENSE
                 then cents (acc_balance a) + cents debit - cents credit
                 else cents (acc_balance a) + cents credit - cents debit) \<longrightarrow>
           forwardDelta accs aid debit credit =
             (if \<bar>b\<bar> < 10 ^ 15
              then Inr (map (\<lambda>x. if acc_id x = aid then x\<lparr>acc_balance := Dec b 2\<rparr> else x) accs)
              else Inl NumericOverflow)
         \<and> decimalValue (Dec b 2) =
             (if acc_type a = ASSET \<or> acc_type a = EXPENSE
              then decimalValue (acc_balance a) + decimalValue debit - decimalValue credit
              else decimalValue (acc_balance a) + decimalValue credit - decimalValue debit)
         \<and> toFixed 2 (calculateAccountBalance (parseFloat (acc_balance a)) (typeName (acc_type a))
                        (parseFloat debit) (parseFloat credit)) = Fixed (Dec b 2))
       \<and> (acc_type a = ASSET \<and> acc_balance a = Dec 10000 2 \<longrightarrow>
            (\<exists>accs'. forwardDelta accs aid (Dec 5000 2) (Dec 0 2) = Inr accs'
                \<and> map_option acc_balance (getAccount accs' aid) = Some (Dec 15000 2))
          \<and> (\<exists>accs'. forwardDelta accs aid (Dec 0 2) (Dec 3000 2) = Inr accs'
                \<and> map_option acc_balance (getAccount accs' aid) = Some (Dec 7000 2)))
       \<and> (acc_type a = LIABILITY \<and> acc_balance a = Dec 10000 2 \<longrightarrow>
            (\<exists>accs'. forwardDelta accs aid (Dec 0 2) (Dec 5000 2) = Inr accs'
                \<and> map_option acc_balance (getAccount accs' aid) = Some (Dec 15000 2))
          \<and> (\<exists>accs'. forwardDelta accs aid (Dec 3000 2) (Dec 0 2) = Inr accs'
                \<and> map_option acc_balance (getAccount accs' aid) = Some (Dec 7000 2)))"
proof -
  have gen: "money (acc_balance a) \<and> centLine debit credit
          \<and> b = (if acc_type a = ASSET \<or> acc_type a = EXPENSE
                 then cents (acc_balance a) + cents debit - cents credit
                 else cents (acc_balance a) + cents credit - cents debit) \<longrightarrow>
           forwardDelta accs aid debit credit =
             (if \<bar>b\<bar> < 10 ^ 15
              then Inr (map (\<lambda>x. if acc_id x = aid then x\<lparr>acc_balance := Dec b 2\<rparr> else x) accs)
              else Inl NumericOverflow)
         \<and> decimalValue (Dec b 2) =
             (if acc_type a = ASSET \<or> acc_type a = EXPENSE
              then decimalValue (acc_balance a) + decimalValue debit - decimalValue credit
              else decimalValue (acc_balance a) + decimalValue credit - decimalValue debit)
         \<and> toFixed 2 (calculateAccountBalance (parseFloat (acc_balance a)) (typeName (acc_type a))
                        (parseFloat debit) (parseFloat credit)) = Fixed (Dec b 2)"
  proof (intro impI)
    assume h: "money (acc_balance a) \<and> centLine debit credit
          \<and> b = (if acc_type a = ASSET \<or> acc_type a = EXPENSE
                 then cents (acc_balance a) + cents debit - cents credit
                 else cents (acc_balance a) + cents credit - cents debit)"
    then have m: "money (acc_balance a)" and c: "centLine debit credit" by blast+
    have b: "b = cents (acc_balance a) + direction (acc_type a) * (cents debit - cents credit)"
      using h by (cases "acc_type a") (simp_all add: direction_def)
    have 1: "forwardDelta accs aid debit credit =
             (if \<bar>b\<bar> < 10 ^ 15
              then Inr (map (\<lambda>x. if acc_id x = aid then x\<lparr>acc_balance := Dec b 2\<rparr> else x) accs)
              else Inl NumericOverflow)"
      using forwardDelta_step[OF assms m c] by (simp add: Let_def b)
    have bal: "decimalValue (acc_balance a) = of_int (cents (acc_balance a)) / 100"
      using money_cents[OF m] decimalValue_Dec2[of "cents (acc_balance a)"] by simp
    have 2: "decimalValue (Dec b 2) =
             (if acc_type a = ASSET \<or> acc_type a = EXPENSE
              then decimalValue (acc_balance a) + decimalValue debit - decimalValue credit
              else decimalValue (acc_balance a) + decimalValue credit - decimalValue debit)"
      unfolding decimalValue_Dec2 bal centLine_values[OF c] using h
      by (simp add: add_divide_distrib diff_divide_distrib)
    have 3: "toFixed 2 (calculateAccountBalance (parseFloat (acc_balance a)) (typeName (acc_type a))
                        (parseFloat debit) (parseFloat credit)) = Fixed (Dec b 2)"
      using calculateAccountBalance_cents[OF m c, of "acc_type a"] by (simp add: b)
    show "forwardDelta accs aid debit credit =
             (if \<bar>b\<bar> < 10 ^ 15
              then Inr (map (\<lambda>x. if acc_id x = aid then x\<lparr>acc_balance := Dec b 2\<rparr> else x) accs)
              else Inl NumericOverflow)
         \<and> decimalValue (Dec b 2) =
             (if acc_type a = ASSET \<or> acc_type a = EXPENSE
              then decimalValue (acc_balance a) + decimalValue debit - decimalValue credit
              else decimalValue (acc_balance a) + decimalValue credit - decimalValue debit)
         \<and> toFixed 2 (calculateAccountBalance (parseFloat (acc_balance a)) (typeName (acc_type a))
                        (parseFloat debit) (parseFloat credit)) = Fixed (Dec b 2)"
      using 1 2 3 by blast
  qed
  have cl: "centLine (Dec 5000 2) (Dec 0 2)" "centLine (Dec 0 2) (Dec 3000 2)"
    "centLine (Dec 0 2) (Dec 5000 2)" "centLine (Dec 3000 2) (Dec 0 2)"
    by (simp_all add: centLine_def)
  have step: "\<exists>accs'. forwardDelta accs aid x y = Inr accs'
                \<and> map_option acc_balance (getAccount accs' aid) = Some (Dec v 2)"
    if "acc_balance a = Dec 10000 2" and "centLine x y"
      and "v = 10000 + direction (acc_type a) * (cents x - cents y)" and "\<bar>v\<bar> < 10 ^ 15"
    for x y v
  proof -
    have m: "money (acc_balance a)" using that(1) by (simp add: money_def)
    have "forwardDelta accs aid x y
        = Inr (map (\<lambda>x. if acc_id x = aid then x\<lparr>acc_balance := Dec v 2\<rparr> else x) accs)"
      using forwardDelta_step[OF assms m that(2)] that(1,3,4) by (simp add: Let_def)
    then show ?thesis by (simp add: getAccount_update_balance assms)
  qed
  have ex1: "acc_type a = ASSET \<and> acc_balance a = Dec 10000 2 \<longrightarrow>
            (\<exists>accs'. forwardDelta accs aid (Dec 5000 2) (Dec 0 2) = Inr accs'
                \<and> map_option acc_balance (getAccount accs' aid) = Some (Dec 15000 2))
          \<and> (\<exists>accs'. forwardDelta accs aid (Dec 0 2) (Dec 3000 2) = Inr accs'
                \<and> map_option acc_balance (getAccount accs' aid) = Some (Dec 7000 2))"
    using step[OF _ cl(1), of 15000] step[OF _ cl(2), of 7000] by (simp add: direction_def)
  have ex2: "acc_type a = LIABILITY \<and> acc_balance a = Dec 10000 2 \<longrightarrow>
            (\<exists>accs'. forwardDelta accs aid (Dec 0 2) (Dec 5000 2) = Inr accs'
                \<and> map_option acc_balance (getAccount accs' aid) = Some (Dec 15000 2))
          \<and> (\<exists>accs'. forwardDelta accs aid (Dec 3000 2) (Dec 0 2) = Inr accs'
                \<and> map_option acc_balance (getAccount accs' aid) = Some (Dec 7000 2))"
    using step[OF _ cl(3), of 15000] step[OF _ cl(4), of 7000] by (simp add: direction_def)
  show ?thesis using gen ex1 ex2 by blast
qed

theorem directional_rule_witness:
  "getAccount [cash, loan] ''a1'' = Some cash \<and> getAccount [cash, loan] ''a2'' = Some loan
   \<and> money (acc_balance cash) \<and> centLine (Dec 1250 2) (Dec 0 0)
   \<and> acc_type cash = ASSET \<and> acc_balance cash = Dec 10000 2
   \<and> acc_type loan = LIABILITY \<and> acc_balance loan = Dec 10000 2
   \<and> forwardDelta [cash, loan] ''a1'' (Dec 1250 2) (Dec 0 0)
       = Inr [cash\<lparr>acc_balance := Dec 11250 2\<rparr>, loan]
   \<and> toFixed 2 (calculateAccountBalance (parseFloat (Dec 10000 2)) ''ASSET''
        (parseFloat (Dec 1250 2)) (parseFloat (Dec 0 0))) = Fixed (Dec 11250 2)
   \<and> (\<exists>accs'. forwardDelta [cash, loan] ''a1'' (Dec 5000 2) (Dec 0 2) = Inr accs'
         \<and> map_option acc_balance (getAccount accs' ''a1'') = Some (Dec 15000 2))
   \<and> (\<exists>accs'. forwardDelta [cash, loan] ''a1'' (Dec 0 2) (Dec 3000 2) = Inr accs'
         \<and> map_option acc_balance (getAccount accs' ''a1'') = Some (Dec 7000 2))
   \<and> (\<exists>accs'. forwardDelta [cash, loan] ''a2'' (Dec 0 2) (Dec 5000 2) = Inr accs'
         \<and> map_option acc_balance (getAccount accs' ''a2'') = Some (Dec 15000 2))
   \<and> (\<exists>accs'. forwardDelta [cash, loan] ''a2'' (Dec 3000 2) (Dec 0 2) = Inr accs'
         \<and> map_option acc_balance (getAccount accs' ''a2'') = Some (Dec 7000 2))"
proof -
  have h1: "getAccount [cash, loan] ''a1'' = Some cash"
    by (simp add: getAccount_def cash_def)
  have h2: "getAccount [cash, loan] ''a2'' = Some loan"
    by (simp add: getAccount_def cash_def loan_def)
  have t: "money (acc_balance cash) \<and> centLine (Dec 1250 2) (Dec 0 0)"
    by (simp add: money_def centLine_def centsOf_def cents_def cash_def)
  have c: "acc_type cash = ASSET \<and> acc_balance cash = Dec 10000 2"
    by (simp add: cash_def)
  have l: "acc_type loan = LIABILITY \<and> acc_balance loan = Dec 10000 2"
    by (simp add: loan_def)
  have v: "cents (Dec 1250 2) = 1250" "cents (Dec 0 0) = 0" "cents (acc_balance cash) = 10000"
    "acc_id cash = ''a1''" "acc_id loan = ''a2''" "typeName ASSET = ''ASSET''"
    by (simp_all add: cents_def centsOf_def cash_def loan_def typeName_def)
  show ?thesis
    using h1 h2 t c l v
      directional_rule[OF h1, where debit = "Dec 1250 2" and credit = "Dec 0 0" and b = 11250]
      directional_rule[OF h2, where debit = "Dec 0 0" and credit = "Dec 0 0" and b = 10000]
    by simp
qed

text \<open>
  Claim C1 as stated fails for a posted line whose amount is no whole number of cents: an
  ASSET account at 100.00 debited with 0.004 keeps the balance 100.00, which is not
  100.00 + 0.004 - 0.
\<close>

theorem directional_rule_rounds:
  "getAccount [cash, loan] ''a1'' = Some cash \<and> acc_type cash = ASSET
   \<and> acc_balance cash = Dec 10000 2
   \<and> forwardDelta [cash, loan] ''a1'' (Dec 4 3) (Dec 0 0) = Inr [cash, loan]
   \<and> decimalValue (Dec 10000 2) \<noteq> decimalValue (Dec 10000 2) + decimalValue (Dec 4 3) - decimalValue (Dec 0 0)"
proof -
  have "getAccount [cash, loan] ''a1'' = Some cash \<and> acc_type cash = ASSET
      \<and> acc_balance cash = Dec 10000 2
      \<and> forwardDelta [cash, loan] ''a1'' (Dec 4 3) (Dec 0 0) = Inr [cash, loan]"
    by code_simp
  moreover have "decimalValue (Dec 10000 2)
      \<noteq> decimalValue (Dec 10000 2) + decimalValue (Dec 4 3) - decimalValue (Dec 0 0)"
    by (simp add: decimalValue_def)
  ultimately show ?thesis by blast
qed

text \<open>The arithmetic is that of binary64: the client helper's sum of 0.1 and 0.2 is the
  number 0.30000000000000004, not the number that 0.3 denotes; the text \<open>1.005\<close> is read
  as a number below 1.005, which \<open>toFixed(2)\<close> writes as 1.00, while a decimal column
  stores the text as 1.01.\<close>

lemma binary64_examples:
  "calculateAccountBalance (parseFloat (Dec 1 1)) ''ASSET'' (parseFloat (Dec 2 1)) (parseFloat (Dec 0 0))
     = Finite 5404319552844596 (- 54)
   \<and> parseFloat (Dec 3 1) = Finite 5404319552844595 (- 54)
   \<and> toFixed 2 (parseFloat (Dec 1005 3)) = Fixed (Dec 100 2)
   \<and> decimalColumn 2 (Dec 1005 3) = Dec 101 2"
  by code_simp

end
